theory Spec2Isabelle
  imports Complex_Main "HOL-Library.DAList"
begin

section \<open>Tetromino types and SRS data (types/tetromino.ts)\<close>

text \<open>
  The seven piece types and the four rotation states are closed unions in the source
  (\<^verbatim>\<open>'I' | 'O' | ...\<close> and \<^verbatim>\<open>0 | 1 | 2 | 3\<close>), so they are datatypes here.
  A \<^verbatim>\<open>Position {x, y}\<close> is a pair of integers: every coordinate the engine
  computes is an integer (spawn column, shape offsets, kick offsets, unit moves).
\<close>

datatype TetrominoType = Tet_I | Tet_O | Tet_T | Tet_S | Tet_Z | Tet_J | Tet_L

datatype RotationState = R0 | R1 | R2 | R3

type_synonym Position = "int \<times> int"

fun TETROMINO_SHAPES :: "TetrominoType \<Rightarrow> RotationState \<Rightarrow> Position list" where
  "TETROMINO_SHAPES Tet_I R0 = [(-1, 0), (0, 0), (1, 0), (2, 0)]"
| "TETROMINO_SHAPES Tet_I R1 = [(1, -1), (1, 0), (1, 1), (1, 2)]"
| "TETROMINO_SHAPES Tet_I R2 = [(-1, 1), (0, 1), (1, 1), (2, 1)]"
| "TETROMINO_SHAPES Tet_I R3 = [(0, -1), (0, 0), (0, 1), (0, 2)]"
| "TETROMINO_SHAPES Tet_O R0 = [(0, 0), (1, 0), (0, 1), (1, 1)]"
| "TETROMINO_SHAPES Tet_O R1 = [(0, 0), (1, 0), (0, 1), (1, 1)]"
| "TETROMINO_SHAPES Tet_O R2 = [(0, 0), (1, 0), (0, 1), (1, 1)]"
| "TETROMINO_SHAPES Tet_O R3 = [(0, 0), (1, 0), (0, 1), (1, 1)]"
| "TETROMINO_SHAPES Tet_T R0 = [(-1, 0), (0, 0), (1, 0), (0, -1)]"
| "TETROMINO_SHAPES Tet_T R1 = [(0, -1), (0, 0), (0, 1), (1, 0)]"
| "TETROMINO_SHAPES Tet_T R2 = [(-1, 0), (0, 0), (1, 0), (0, 1)]"
| "TETROMINO_SHAPES Tet_T R3 = [(0, -1), (0, 0), (0, 1), (-1, 0)]"
| "TETROMINO_SHAPES Tet_S R0 = [(0, 0), (1, 0), (-1, 1), (0, 1)]"
| "TETROMINO_SHAPES Tet_S R1 = [(0, -1), (0, 0), (1, 0), (1, 1)]"
| "TETROMINO_SHAPES Tet_S R2 = [(0, 0), (1, 0), (-1, 1), (0, 1)]"
| "TETROMINO_SHAPES Tet_S R3 = [(-1, -1), (-1, 0), (0, 0), (0, 1)]"
| "TETROMINO_SHAPES Tet_Z R0 = [(-1, 0), (0, 0), (0, 1), (1, 1)]"
| "TETROMINO_SHAPES Tet_Z R1 = [(1, -1), (0, 0), (1, 0), (0, 1)]"
| "TETROMINO_SHAPES Tet_Z R2 = [(-1, 0), (0, 0), (0, 1), (1, 1)]"
| "TETROMINO_SHAPES Tet_Z R3 = [(0, -1), (-1, 0), (0, 0), (-1, 1)]"
| "TETROMINO_SHAPES Tet_J R0 = [(-1, -1), (-1, 0), (0, 0), (1, 0)]"
| "TETROMINO_SHAPES Tet_J R1 = [(0, -1), (1, -1), (0, 0), (0, 1)]"
| "TETROMINO_SHAPES Tet_J R2 = [(-1, 0), (0, 0), (1, 0), (1, 1)]"
| "TETROMINO_SHAPES Tet_J R3 = [(0, -1), (0, 0), (-1, 1), (0, 1)]"
| "TETROMINO_SHAPES Tet_L R0 = [(1, -1), (-1, 0), (0, 0), (1, 0)]"
| "TETROMINO_SHAPES Tet_L R1 = [(0, -1), (0, 0), (0, 1), (1, 1)]"
| "TETROMINO_SHAPES Tet_L R2 = [(-1, 0), (0, 0), (1, 0), (-1, 1)]"
| "TETROMINO_SHAPES Tet_L R3 = [(-1, -1), (0, -1), (0, 0), (0, 1)]"

text \<open>
  The kick tables are records keyed by the strings \<^verbatim>\<open>'0->1'\<close>, ..., \<^verbatim>\<open>'0->3'\<close>: eight
  keys, one per quarter turn. A key outside the table (a half turn, or no turn) reads
  \<^verbatim>\<open>undefined\<close> in the source, which is \<open>None\<close> here.
\<close>

fun WALL_KICKS_JLSTZ :: "RotationState \<times> RotationState \<Rightarrow> Position list option" where
  "WALL_KICKS_JLSTZ (R0, R1) = Some [(0, 0), (-1, 0), (-1, -1), (0, 2), (-1, 2)]"
| "WALL_KICKS_JLSTZ (R1, R0) = Some [(0, 0), (1, 0), (1, 1), (0, -2), (1, -2)]"
| "WALL_KICKS_JLSTZ (R1, R2) = Some [(0, 0), (1, 0), (1, 1), (0, -2), (1, -2)]"
| "WALL_KICKS_JLSTZ (R2, R1) = Some [(0, 0), (-1, 0), (-1, -1), (0, 2), (-1, 2)]"
| "WALL_KICKS_JLSTZ (R2, R3) = Some [(0, 0), (1, 0), (1, -1), (0, 2), (1, 2)]"
| "WALL_KICKS_JLSTZ (R3, R2) = Some [(0, 0), (-1, 0), (-1, 1), (0, -2), (-1, -2)]"
| "WALL_KICKS_JLSTZ (R3, R0) = Some [(0, 0), (-1, 0), (-1, 1), (0, -2), (-1, -2)]"
| "WALL_KICKS_JLSTZ (R0, R3) = Some [(0, 0), (1, 0), (1, -1), (0, 2), (1, 2)]"
| "WALL_KICKS_JLSTZ _ = None"

fun WALL_KICKS_I :: "RotationState \<times> RotationState \<Rightarrow> Position list option" where
  "WALL_KICKS_I (R0, R1) = Some [(0, 0), (-2, 0), (1, 0), (-2, 1), (1, -2)]"
| "WALL_KICKS_I (R1, R0) = Some [(0, 0), (2, 0), (-1, 0), (2, -1), (-1, 2)]"
| "WALL_KICKS_I (R1, R2) = Some [(0, 0), (-1, 0), (2, 0), (-1, -2), (2, 1)]"
| "WALL_KICKS_I (R2, R1) = Some [(0, 0), (1, 0), (-2, 0), (1, 2), (-2, -1)]"
| "WALL_KICKS_I (R2, R3) = Some [(0, 0), (2, 0), (-1, 0), (2, -1), (-1, 2)]"
| "WALL_KICKS_I (R3, R2) = Some [(0, 0), (-2, 0), (1, 0), (-2, 1), (1, -2)]"
| "WALL_KICKS_I (R3, R0) = Some [(0, 0), (1, 0), (-2, 0), (1, 2), (-2, -1)]"
| "WALL_KICKS_I (R0, R3) = Some [(0, 0), (-1, 0), (2, 0), (-1, -2), (2, 1)]"
| "WALL_KICKS_I _ = None"

fun WALL_KICKS_O :: "RotationState \<times> RotationState \<Rightarrow> Position list option" where
  "WALL_KICKS_O (R0, R1) = Some [(0, 0)]"
| "WALL_KICKS_O (R1, R0) = Some [(0, 0)]"
| "WALL_KICKS_O (R1, R2) = Some [(0, 0)]"
| "WALL_KICKS_O (R2, R1) = Some [(0, 0)]"
| "WALL_KICKS_O (R2, R3) = Some [(0, 0)]"
| "WALL_KICKS_O (R3, R2) = Some [(0, 0)]"
| "WALL_KICKS_O (R3, R0) = Some [(0, 0)]"
| "WALL_KICKS_O (R0, R3) = Some [(0, 0)]"
| "WALL_KICKS_O _ = None"

definition getWallKicks ::
  "TetrominoType \<Rightarrow> RotationState \<times> RotationState \<Rightarrow> Position list option" where
  "getWallKicks t =
     (if t = Tet_I then WALL_KICKS_I else if t = Tet_O then WALL_KICKS_O else WALL_KICKS_JLSTZ)"

definition getWallKickKey :: "RotationState \<Rightarrow> RotationState \<Rightarrow> RotationState \<times> RotationState" where
  "getWallKickKey from to = (from, to)"

record LockDelay =
  active :: bool
  remaining :: real
  moveResets :: int
  maxResets :: int

record ActivePiece =
  ptype :: TetrominoType
  position :: Position
  rotation :: RotationState
  ghostY :: int
  lockDelay :: LockDelay
  softDropCells :: int

definition getPieceBlocks :: "ActivePiece \<Rightarrow> Position list" where
  "getPieceBlocks piece =
     map (\<lambda>offset. (fst (position piece) + fst offset, snd (position piece) + snd offset))
       (TETROMINO_SHAPES (ptype piece) (rotation piece))"

section \<open>Board (types/board.ts)\<close>

text \<open>
  \<^verbatim>\<open>cells\<close> is a JavaScript \<^verbatim>\<open>Map\<close> from the key \<^verbatim>\<open>"x,y"\<close> to a cell. A \<^verbatim>\<open>Map\<close> holds each
  key once and iterates in insertion order; \<^verbatim>\<open>set\<close> on a key already present
  keeps its place. That is an association list with distinct keys, updated in place or
  at the end: the type \<open>alist\<close> with \<open>DAList.update\<close>. The key string is
  modelled by the pair of integers it prints. \<^verbatim>\<open>Date.now()\<close> is read as one value
  \<open>now\<close> handed to the operation that reads the clock.
\<close>

datatype Special = Garbage | Glitch | Bomb

record CellState =
  ctype :: TetrominoType
  lockedAt :: "int option"
  special :: "Special option"

record BoardConfig =
  width :: int
  height :: int
  bufferRows :: int

record BoardState =
  config :: BoardConfig
  cells :: "(Position, CellState) alist"
  pendingClearRows :: "int list"
  lastModified :: int

definition DEFAULT_BOARD_CONFIG :: BoardConfig where
  "DEFAULT_BOARD_CONFIG = \<lparr>width = 10, height = 20, bufferRows = 4\<rparr>"

definition createBoard :: "int \<Rightarrow> BoardConfig \<Rightarrow> BoardState" where
  "createBoard now cfg =
     \<lparr>config = cfg, cells = DAList.empty, pendingClearRows = [], lastModified = now\<rparr>"

definition getCell :: "BoardState \<Rightarrow> int \<Rightarrow> int \<Rightarrow> CellState option" where
  "getCell board x y = DAList.lookup (cells board) (x, y)"

definition setCell :: "int \<Rightarrow> BoardState \<Rightarrow> int \<Rightarrow> int \<Rightarrow> CellState option \<Rightarrow> BoardState" where
  "setCell now board x y cell =
     (let newCells = (case cell of
                        None \<Rightarrow> DAList.delete (x, y) (cells board)
                      | Some c \<Rightarrow> DAList.update (x, y) c (cells board))
      in board\<lparr>cells := newCells, lastModified := now\<rparr>)"

definition totalHeight :: "BoardState \<Rightarrow> int" where
  "totalHeight board = height (config board) + bufferRows (config board)"

definition isValidPosition :: "BoardState \<Rightarrow> int \<Rightarrow> int \<Rightarrow> bool" where
  "isValidPosition board x y =
     (x \<ge> 0 \<and> x < width (config board) \<and> y \<ge> 0 \<and> y < totalHeight board)"

definition isCellOccupied :: "BoardState \<Rightarrow> int \<Rightarrow> int \<Rightarrow> bool" where
  "isCellOccupied board x y = (DAList.lookup (cells board) (x, y) \<noteq> None)"

text \<open>
  \<^verbatim>\<open>getFilledRows\<close>: the inner loop leaves at the first free cell, so a row is kept
  when every column \<open>0 \<le> x < width\<close> is occupied; rows are pushed in increasing \<open>y\<close>.
\<close>

definition rowFilled :: "BoardState \<Rightarrow> int \<Rightarrow> bool" where
  "rowFilled board y = list_all (\<lambda>x. isCellOccupied board x y) [0 .. width (config board) - 1]"

definition getFilledRows :: "BoardState \<Rightarrow> int list" where
  "getFilledRows board = filter (rowFilled board) [0 .. totalHeight board - 1]"

text \<open>
  \<^verbatim>\<open>clearRows\<close>: for each column, \<open>readY\<close> walks up the column and \<open>writeY\<close> counts the
  rows kept so far. \<open>clearColumn\<close> is the inner loop over the remaining \<open>readY\<close> values.
\<close>

fun clearColumn ::
  "BoardState \<Rightarrow> int list \<Rightarrow> int \<Rightarrow> int list \<Rightarrow> int \<Rightarrow> (Position, CellState) alist
     \<Rightarrow> (Position, CellState) alist" where
  "clearColumn board sortedRows x [] writeY newCells = newCells"
| "clearColumn board sortedRows x (readY # rest) writeY newCells =
     (if List.member sortedRows readY then clearColumn board sortedRows x rest writeY newCells
      else clearColumn board sortedRows x rest (writeY + 1)
             (case getCell board x readY of
                Some cell \<Rightarrow> DAList.update (x, writeY) cell newCells
              | None \<Rightarrow> newCells))"

definition clearRows :: "int \<Rightarrow> BoardState \<Rightarrow> int list \<Rightarrow> BoardState" where
  "clearRows now board rows =
     (if rows = [] then board
      else
        let sortedRows = rev (sort rows);
            newCells = fold (\<lambda>x nc. clearColumn board sortedRows x [0 .. totalHeight board - 1] 0 nc)
                         [0 .. width (config board) - 1] DAList.empty
        in board\<lparr>cells := newCells, pendingClearRows := [], lastModified := now\<rparr>)"

definition lockPiece :: "int \<Rightarrow> BoardState \<Rightarrow> Position list \<Rightarrow> TetrominoType \<Rightarrow> BoardState" where
  "lockPiece now board positions t =
     fold (\<lambda>pos newBoard.
             setCell now newBoard (fst pos) (snd pos)
               (Some \<lparr>ctype = t, lockedAt = Some now, special = None\<rparr>))
       positions board"

definition getHighestOccupiedRow :: "BoardState \<Rightarrow> int" where
  "getHighestOccupiedRow board =
     fold (\<lambda>pos highest. if highest = -1 \<or> snd pos > highest then snd pos else highest)
       (map fst (DAList.impl_of (cells board))) (-1)"

section \<open>Collision and placement (engine/Collision.ts)\<close>

definition isValidPiecePosition :: "BoardState \<Rightarrow> ActivePiece \<Rightarrow> bool" where
  "isValidPiecePosition board piece =
     list_all (\<lambda>block. isValidPosition board (fst block) (snd block)
                      \<and> \<not> isCellOccupied board (fst block) (snd block))
       (getPieceBlocks piece)"

definition canPlacePiece ::
  "BoardState \<Rightarrow> TetrominoType \<Rightarrow> Position \<Rightarrow> RotationState \<Rightarrow> bool" where
  "canPlacePiece board t pos rot =
     list_all (\<lambda>offset. isValidPosition board (fst pos + fst offset) (snd pos + snd offset)
                       \<and> \<not> isCellOccupied board (fst pos + fst offset) (snd pos + snd offset))
       (TETROMINO_SHAPES t rot)"

definition canMove :: "BoardState \<Rightarrow> ActivePiece \<Rightarrow> int \<Rightarrow> int \<Rightarrow> bool" where
  "canMove board piece dx dy =
     canPlacePiece board (ptype piece)
       (fst (position piece) + dx, snd (position piece) + dy) (rotation piece)"

definition tryMove :: "BoardState \<Rightarrow> ActivePiece \<Rightarrow> int \<Rightarrow> int \<Rightarrow> ActivePiece option" where
  "tryMove board piece dx dy =
     (if \<not> canMove board piece dx dy then None
      else Some (piece\<lparr>position := (fst (position piece) + dx, snd (position piece) + dy)\<rparr>))"

definition isOnGround :: "BoardState \<Rightarrow> ActivePiece \<Rightarrow> bool" where
  "isOnGround board piece = (\<not> canMove board piece 0 (-1))"

lemma canPlacePiece_lower_bound:
  "canPlacePiece board t (px, py) rot \<Longrightarrow> -2 \<le> py"
  by (cases t; cases rot) (simp_all add: canPlacePiece_def isValidPosition_def)

text \<open>
  \<^verbatim>\<open>calculateGhostY\<close>: the loop lowers \<open>ghostY\<close> while the placement one row down is
  legal. A legal placement has every block at \<open>y \<ge> 0\<close>, so the loop ends.
\<close>

function ghostLoop :: "BoardState \<Rightarrow> TetrominoType \<Rightarrow> int \<Rightarrow> RotationState \<Rightarrow> int \<Rightarrow> int" where
  "ghostLoop board t px rot gy =
     (if canPlacePiece board t (px, gy - 1) rot then ghostLoop board t px rot (gy - 1) else gy)"
  by pat_completeness auto
termination
proof (relation "measure (\<lambda>(board, t, px, rot, gy). nat (gy + 3))")
  show "wf (measure (\<lambda>(board, t, px, rot, gy). nat (gy + 3)))"
    by simp
next
  fix board :: BoardState and t px rot and gy :: int
  assume "canPlacePiece board t (px, gy - 1) rot"
  then have "-2 \<le> gy - 1"
    by (rule canPlacePiece_lower_bound)
  then show "((board, t, px, rot, gy - 1), (board, t, px, rot, gy))
               \<in> measure (\<lambda>(board, t, px, rot, gy). nat (gy + 3))"
    by simp
qed

declare ghostLoop.simps [simp del]

definition calculateGhostY :: "BoardState \<Rightarrow> ActivePiece \<Rightarrow> int" where
  "calculateGhostY board piece =
     ghostLoop board (ptype piece) (fst (position piece)) (rotation piece) (snd (position piece))"

text \<open>\<^verbatim>\<open>getDropPositions\<close> returns the pair \<open>(positions, dropDistance)\<close>.\<close>

definition getDropPositions :: "BoardState \<Rightarrow> ActivePiece \<Rightarrow> Position list \<times> int" where
  "getDropPositions board piece =
     (let gy = calculateGhostY board piece;
          dropDistance = snd (position piece) - gy;
          droppedPiece = piece\<lparr>position := (fst (position piece), gy)\<rparr>
      in (getPieceBlocks droppedPiece, dropDistance))"

definition getFrontCornerIndices :: "RotationState \<Rightarrow> nat \<times> nat" where
  "getFrontCornerIndices rot =
     (case rot of R0 \<Rightarrow> (0, 1) | R1 \<Rightarrow> (1, 3) | R2 \<Rightarrow> (2, 3) | R3 \<Rightarrow> (0, 2))"

definition cornerFilled :: "BoardState \<Rightarrow> Position \<Rightarrow> bool" where
  "cornerFilled board corner =
     (\<not> isValidPosition board (fst corner) (snd corner)
      \<or> isCellOccupied board (fst corner) (snd corner))"

text \<open>\<^verbatim>\<open>detectTSpin\<close> returns the pair \<open>(isTSpin, isMini)\<close>.\<close>

definition detectTSpin :: "BoardState \<Rightarrow> ActivePiece \<Rightarrow> bool \<Rightarrow> int \<Rightarrow> bool \<times> bool" where
  "detectTSpin board piece wasWallKick kickIndex =
     (if ptype piece \<noteq> Tet_T then (False, False)
      else
        let px = fst (position piece); py = snd (position piece);
            corners = [(px - 1, py + 1), (px + 1, py + 1), (px - 1, py - 1), (px + 1, py - 1)];
            filledCorners = length (filter (cornerFilled board) corners)
        in if filledCorners < 3 then (False, False)
           else
             let idx = getFrontCornerIndices (rotation piece);
                 frontCornersFilled =
                   length (filter (cornerFilled board) [corners ! fst idx, corners ! snd idx]);
                 isMini = (frontCornersFilled < 2 \<and> \<not> (wasWallKick \<and> kickIndex = 4))
             in (True, isMini))"

definition isPerfectClear :: "BoardState \<Rightarrow> bool" where
  "isPerfectClear board = (size (cells board) = 0)"

section \<open>Rotation (engine/Rotation.ts)\<close>

datatype RotationDirection = CW | CCW | Rot180

record RotationResult =
  success :: bool
  newPiece :: "ActivePiece option"
  wasWallKick :: bool
  kickIndex :: int

definition rotIndex :: "RotationState \<Rightarrow> nat" where
  "rotIndex r = (case r of R0 \<Rightarrow> 0 | R1 \<Rightarrow> 1 | R2 \<Rightarrow> 2 | R3 \<Rightarrow> 3)"

definition rotOfNat :: "nat \<Rightarrow> RotationState" where
  "rotOfNat n = (if n = 0 then R0 else if n = 1 then R1 else if n = 2 then R2 else R3)"

definition getNewRotation :: "RotationState \<Rightarrow> RotationDirection \<Rightarrow> RotationState" where
  "getNewRotation current direction =
     (case direction of
        CW \<Rightarrow> rotOfNat ((rotIndex current + 1) mod 4)
      | CCW \<Rightarrow> rotOfNat ((rotIndex current + 3) mod 4)
      | Rot180 \<Rightarrow> rotOfNat ((rotIndex current + 2) mod 4))"

definition rotationFailed :: RotationResult where
  "rotationFailed = \<lparr>success = False, newPiece = None, wasWallKick = False, kickIndex = -1\<rparr>"

text \<open>The kick loop: \<open>i\<close> is the index of the first offset of the remaining list.\<close>

fun tryKicks ::
  "BoardState \<Rightarrow> ActivePiece \<Rightarrow> RotationState \<Rightarrow> Position list \<Rightarrow> int \<Rightarrow> RotationResult" where
  "tryKicks board piece newRotation [] i = rotationFailed"
| "tryKicks board piece newRotation (kick # rest) i =
     (let newPosition = (fst (position piece) + fst kick, snd (position piece) + snd kick)
      in if canPlacePiece board (ptype piece) newPosition newRotation
         then \<lparr>success = True,
               newPiece = Some (piece\<lparr>position := newPosition, rotation := newRotation\<rparr>),
               wasWallKick = (i > 0),
               kickIndex = i\<rparr>
         else tryKicks board piece newRotation rest (i + 1))"

text \<open>
  \<open>tryRotateQuarter\<close> is the part of \<^verbatim>\<open>tryRotate\<close> below the half-turn branch; the
  half-turn branch calls it for \<open>CW\<close> and \<open>CCW\<close> only. For those two directions the key
  is always one of the eight of the table (lemma \<open>quarter_turn_key_in_table\<close>), so
  the \<open>None\<close> case is never taken.
\<close>

definition tryRotateQuarter ::
  "BoardState \<Rightarrow> ActivePiece \<Rightarrow> RotationDirection \<Rightarrow> RotationResult" where
  "tryRotateQuarter board piece direction =
     (let newRotation = getNewRotation (rotation piece) direction;
          kickKey = getWallKickKey (rotation piece) newRotation
      in case getWallKicks (ptype piece) kickKey of
           Some kicks \<Rightarrow> tryKicks board piece newRotation kicks 0
         | None \<Rightarrow> rotationFailed)"

text \<open>
  One path of the half turn: two quarter turns in the same direction. The result counts
  only when the first turn succeeds with a piece and the second succeeds as well.
\<close>

definition tryRotateTwice ::
  "BoardState \<Rightarrow> ActivePiece \<Rightarrow> RotationDirection \<Rightarrow> RotationResult option" where
  "tryRotateTwice board piece direction =
     (let first = tryRotateQuarter board piece direction
      in case newPiece first of
           Some p \<Rightarrow>
             if success first then
               (let second = tryRotateQuarter board p direction
                in if success second then Some second else None)
             else None
         | None \<Rightarrow> None)"

definition tryRotate ::
  "BoardState \<Rightarrow> ActivePiece \<Rightarrow> RotationDirection \<Rightarrow> RotationResult" where
  "tryRotate board piece direction =
     (let newRotation = getNewRotation (rotation piece) direction
      in if direction = Rot180 then
           (case tryRotateTwice board piece CW of
              Some cwSecond \<Rightarrow> cwSecond
            | None \<Rightarrow>
                (case tryRotateTwice board piece CCW of
                   Some ccwSecond \<Rightarrow> ccwSecond
                 | None \<Rightarrow>
                     if canPlacePiece board (ptype piece) (position piece) newRotation
                     then \<lparr>success = True, newPiece = Some (piece\<lparr>rotation := newRotation\<rparr>),
                           wasWallKick = False, kickIndex = 0\<rparr>
                     else rotationFailed))
         else tryRotateQuarter board piece direction)"

text \<open>\<^verbatim>\<open>rotatePiece\<close> returns \<open>(piece, wasWallKick, kickIndex)\<close> or \<open>None\<close> for \<^verbatim>\<open>null\<close>.\<close>

definition rotatePiece ::
  "BoardState \<Rightarrow> ActivePiece \<Rightarrow> RotationDirection \<Rightarrow> (ActivePiece \<times> bool \<times> int) option" where
  "rotatePiece board piece direction =
     (let result = tryRotate board piece direction
      in case newPiece result of
           Some p \<Rightarrow> if success result then Some (p, wasWallKick result, kickIndex result) else None
         | None \<Rightarrow> None)"

section \<open>Scoring and heat (types/scoring.ts)\<close>

datatype ClearType =
  Single | Double | Triple | Tetris
  | TSpinMini | TSpinSingle | TSpinDouble | TSpinTriple | PerfectClearType

record ScoringConfig =
  basePoints :: "ClearType \<Rightarrow> int"
  softDropPoints :: int
  hardDropPoints :: int
  comboBonus :: int
  sc_backToBackMultiplier :: real
  sc_linesPerLevel :: int
  sc_maxLevel :: int

fun defaultBasePoints :: "ClearType \<Rightarrow> int" where
  "defaultBasePoints Single = 100"
| "defaultBasePoints Double = 300"
| "defaultBasePoints Triple = 500"
| "defaultBasePoints Tetris = 800"
| "defaultBasePoints TSpinMini = 100"
| "defaultBasePoints TSpinSingle = 800"
| "defaultBasePoints TSpinDouble = 1200"
| "defaultBasePoints TSpinTriple = 1600"
| "defaultBasePoints PerfectClearType = 3000"

definition DEFAULT_SCORING_CONFIG :: ScoringConfig where
  "DEFAULT_SCORING_CONFIG =
     \<lparr>basePoints = defaultBasePoints, softDropPoints = 1, hardDropPoints = 2, comboBonus = 50,
      sc_backToBackMultiplier = 3 / 2, sc_linesPerLevel = 10, sc_maxLevel = 15\<rparr>"

record HeatConfig =
  clearHeat :: "ClearType \<Rightarrow> real"
  comboMultiplier :: real
  hc_backToBackMultiplier :: real
  decayPerSecond :: real
  maxHeat :: real

fun defaultClearHeat :: "ClearType \<Rightarrow> real" where
  "defaultClearHeat Single = 8 / 100"
| "defaultClearHeat Double = 15 / 100"
| "defaultClearHeat Triple = 25 / 100"
| "defaultClearHeat Tetris = 40 / 100"
| "defaultClearHeat TSpinMini = 20 / 100"
| "defaultClearHeat TSpinSingle = 30 / 100"
| "defaultClearHeat TSpinDouble = 45 / 100"
| "defaultClearHeat TSpinTriple = 60 / 100"
| "defaultClearHeat PerfectClearType = 80 / 100"

definition DEFAULT_HEAT_CONFIG :: HeatConfig where
  "DEFAULT_HEAT_CONFIG =
     \<lparr>clearHeat = defaultClearHeat, comboMultiplier = 5 / 100, hc_backToBackMultiplier = 3 / 2,
      decayPerSecond = 8 / 100, maxHeat = 1\<rparr>"

definition calculateClearPoints :: "ClearType \<Rightarrow> int \<Rightarrow> int \<Rightarrow> bool \<Rightarrow> ScoringConfig \<Rightarrow> int" where
  "calculateClearPoints clearType lvl comboCnt isBackToBack cfg =
     (let points0 = basePoints cfg clearType * lvl;
          points1 = (if comboCnt > 0 then points0 + comboBonus cfg * comboCnt * lvl else points0)
      in if isBackToBack then \<lfloor>of_int points1 * sc_backToBackMultiplier cfg\<rfloor> else points1)"

definition getClearType :: "int \<Rightarrow> bool \<Rightarrow> bool \<Rightarrow> ClearType" where
  "getClearType lineCount isTSpin isMini =
     (if isTSpin then
        (if isMini then TSpinMini
         else if lineCount = 1 then TSpinSingle
         else if lineCount = 2 then TSpinDouble
         else if lineCount = 3 then TSpinTriple
         else TSpinMini)
      else if lineCount = 1 then Single
      else if lineCount = 2 then Double
      else if lineCount = 3 then Triple
      else if lineCount = 4 then Tetris
      else Single)"

text \<open>
  \<^verbatim>\<open>isDifficultClear\<close>: the clear type is \<^verbatim>\<open>'tetris'\<close> or its name starts with
  \<^verbatim>\<open>'t-spin'\<close>, which are the four t-spin types.
\<close>

definition isDifficultClear :: "ClearType \<Rightarrow> bool" where
  "isDifficultClear clearType =
     (clearType = Tetris \<or> clearType \<in> {TSpinMini, TSpinSingle, TSpinDouble, TSpinTriple})"

definition calculateHeatContribution :: "ClearType \<Rightarrow> int \<Rightarrow> bool \<Rightarrow> HeatConfig \<Rightarrow> real" where
  "calculateHeatContribution clearType comboCnt isBackToBack cfg =
     (let heat0 = clearHeat cfg clearType;
          heat1 = heat0 + heat0 * comboMultiplier cfg * of_int comboCnt;
          heat2 = (if isBackToBack then heat1 * hc_backToBackMultiplier cfg else heat1)
      in min heat2 (maxHeat cfg))"

definition decayHeat :: "real \<Rightarrow> real \<Rightarrow> HeatConfig \<Rightarrow> real" where
  "decayHeat currentHeat deltaMs cfg =
     (let decay = decayPerSecond cfg * (deltaMs / 1000) in max 0 (currentHeat - decay))"

section \<open>The 7-bag randomizer (types/tetromino.ts)\<close>

text \<open>
  \<^verbatim>\<open>Math.random()\<close> is an explicit stream of reals: \<open>rngNext\<close> reads the head and
  returns the rest. The source's generator always answers in \<open>[0, 1)\<close>.
\<close>

type_synonym rng = "nat \<Rightarrow> real"

definition rngNext :: "rng \<Rightarrow> real \<times> rng" where
  "rngNext r = (r 0, \<lambda>n. r (Suc n))"

record PieceBag =
  current :: "TetrominoType list"
  nextBag :: "TetrominoType list"
  preview :: "TetrominoType list"

text \<open>
  The Fisher-Yates loop of \<^verbatim>\<open>createBag\<close>, for \<open>i\<close> from \<open>length - 1\<close> down to 1:
  \<open>j = floor (random * (i + 1))\<close>, then \<open>pieces[i]\<close> and \<open>pieces[j]\<close> are swapped.
\<close>

fun shuffleLoop :: "nat \<Rightarrow> TetrominoType list \<Rightarrow> rng \<Rightarrow> TetrominoType list \<times> rng" where
  "shuffleLoop 0 pieces r = (pieces, r)"
| "shuffleLoop (Suc k) pieces r =
     (let i = Suc k;
          (u, r') = rngNext r;
          j = nat \<lfloor>u * real (i + 1)\<rfloor>
      in shuffleLoop k (pieces[i := pieces ! j, j := pieces ! i]) r')"

definition createBag :: "rng \<Rightarrow> TetrominoType list \<times> rng" where
  "createBag r =
     (let pieces = [Tet_I, Tet_O, Tet_T, Tet_S, Tet_Z, Tet_J, Tet_L]
      in shuffleLoop (length pieces - 1) pieces r)"

definition createPieceBag :: "rng \<Rightarrow> nat \<Rightarrow> PieceBag \<times> rng" where
  "createPieceBag r previewCount =
     (let (cur, r1) = createBag r;
          (nxt, r2) = createBag r1
      in (\<lparr>current = cur, nextBag = nxt, preview = take previewCount (cur @ nxt)\<rparr>, r2))"

text \<open>
  \<^verbatim>\<open>getNextPiece\<close>: \<^verbatim>\<open>shift()\<close> on an empty array returns \<^verbatim>\<open>undefined\<close> and leaves the
  array empty, so the drawn piece is an option and the rest is \<open>tl\<close>.
\<close>

definition getNextPiece :: "rng \<Rightarrow> PieceBag \<Rightarrow> (TetrominoType option \<times> PieceBag) \<times> rng" where
  "getNextPiece r bag =
     (let piece = (case current bag of [] \<Rightarrow> None | p # _ \<Rightarrow> Some p);
          cur1 = tl (current bag);
          (cur2, nxt2, r') =
             (if length cur1 = 0
              then (let (fresh, r1) = createBag r in (nextBag bag, fresh, r1))
              else (cur1, nextBag bag, r));
          prev1 = tl (preview bag);
          allPieces = cur2 @ nxt2;
          prev2 = (if length prev1 < length (preview bag) \<and> length allPieces > length prev1
                   then prev1 @ [allPieces ! length prev1] else prev1)
      in ((piece, \<lparr>current = cur2, nextBag = nxt2, preview = prev2\<rparr>), r'))"

section \<open>Game state (types/gameState.ts, types/events.ts)\<close>

datatype GamePhase = Menu | Countdown | Playing | Clearing | Paused | GameOver | Victory

record ScoreState =
  scoreTotal :: real
  level :: int
  linesCleared :: int
  linesAtLevel :: int
  linesToNextLevel :: int

record ComboState =
  comboCount :: int
  backToBack :: int
  backToBackActive :: bool
  perfectClears :: int

record ClearEvent =
  ev_type :: ClearType
  ev_lines :: "int list"
  ev_timestamp :: real
  ev_backToBack :: bool
  ev_comboCount :: int
  ev_points :: int
  ev_heatContribution :: real

record StreakState =
  heatLevel :: real
  peakHeat :: real
  timeSinceLastClear :: real
  recentClears :: "ClearEvent list"

datatype MoveDirection = MoveLeft | MoveRight | MoveDown

datatype GameEvent =
    EvPieceSpawn TetrominoType
  | EvPieceMove MoveDirection Position
  | EvPieceRotate RotationState bool int
  | EvPieceLock "Position list" TetrominoType
  | EvPieceHold "TetrominoType option" TetrominoType
  | EvHardDrop int int int
  | EvSoftDrop int
  | EvLinesClear ClearEvent
  | EvLevelUp int int
  | EvCombo int
  | EvBackToBack int
  | EvPerfectClear int
  | EvGameOver real int int
  | EvHeatChange real real real
  | EvDangerZone bool real

record TimingState =
  gameTime :: real
  lastUpdateTime :: real
  gravityAccumulator :: real
  gravitySpeed :: real
  baseGravity :: real

record HoldState =
  heldPiece :: "TetrominoType option"
  available :: bool

datatype DasDirection = DasLeft | DasRight

record DasState =
  direction :: "DasDirection option"
  chargeTime :: real
  autoRepeatActive :: bool

record InputState =
  das :: DasState
  softDropHeld :: bool
  hardDropTriggered :: bool
  rotationQueue :: "RotationDirection list"
  holdTriggered :: bool

record ChaosEventState =
  ces_id :: string
  ces_type :: string
  ces_startTime :: real
  ces_duration :: real
  ces_intensity :: real

datatype GoalType = ScoreGoal | LinesGoal

datatype ModeSpecificState =
    ClassicMode "(GoalType \<times> real) option"
  | MarathonMode
  | ChaosMode "ChaosEventState list" real real
  | ZenMode bool int real

record GameState =
  phase :: GamePhase
  board :: BoardState
  activePiece :: "ActivePiece option"
  hold :: HoldState
  bag :: PieceBag
  score :: ScoreState
  combo :: ComboState
  streak :: StreakState
  timing :: TimingState
  input :: InputState
  modeState :: ModeSpecificState
  frameEvents :: "GameEvent list"
  seed :: int

record GameConfig =
  boardWidth :: int
  boardHeight :: int
  previewCount :: nat
  startLevel :: int
  linesPerLevel :: int
  maxLevel :: int
  cfg_lockDelay :: real
  lockDelayResets :: int
  cfg_das :: real
  arr :: real
  softDropMultiplier :: real
  holdEnabled :: bool
  ghostEnabled :: bool

definition DEFAULT_GAME_CONFIG :: GameConfig where
  "DEFAULT_GAME_CONFIG =
     \<lparr>boardWidth = 10, boardHeight = 20, previewCount = 3, startLevel = 1, linesPerLevel = 10,
      maxLevel = 15, cfg_lockDelay = 500, lockDelayResets = 15, cfg_das = 170, arr = 50,
      softDropMultiplier = 20, holdEnabled = True, ghostEnabled = True\<rparr>"

text \<open>
  \<^verbatim>\<open>calculateGravity\<close>: \<^verbatim>\<open>Math.pow\<close> with an integer exponent is \<open>powi\<close>; the base
  \<open>0.8 - (level - 1) * 0.007\<close> is at least \<open>0.667\<close> for a level clamped to 20.
\<close>

definition calculateGravity :: "int \<Rightarrow> real" where
  "calculateGravity lvl =
     (let clampedLevel = min lvl 20;
          secondsPerCell = (8 / 10 - of_int (clampedLevel - 1) * (7 / 1000)) powi (clampedLevel - 1)
      in 1 / secondsPerCell)"

section \<open>Board management (engine/Board.ts)\<close>

datatype error = TypeError

definition spawnPiece :: "BoardState \<Rightarrow> TetrominoType \<Rightarrow> GameConfig \<Rightarrow> ActivePiece option" where
  "spawnPiece brd t cfg =
     (let spawnX = width (config brd) div 2 - 1;
          spawnY = height (config brd);
          piece0 = \<lparr>ptype = t, position = (spawnX, spawnY), rotation = R0, ghostY = 0,
                    lockDelay = \<lparr>active = False, remaining = cfg_lockDelay cfg, moveResets = 0,
                                 maxResets = lockDelayResets cfg\<rparr>,
                    softDropCells = 0\<rparr>;
          piece = piece0\<lparr>ghostY := calculateGhostY brd piece0\<rparr>
      in if \<not> isValidPiecePosition brd piece then None else Some piece)"

text \<open>
  \<^verbatim>\<open>spawnNextPiece\<close>: when the bag's \<^verbatim>\<open>current\<close> queue is empty the drawn type is
  \<^verbatim>\<open>undefined\<close>, and the shape lookup of \<^verbatim>\<open>calculateGhostY\<close> throws a TypeError.
\<close>

definition spawnNextPiece ::
  "rng \<Rightarrow> BoardState \<Rightarrow> PieceBag \<Rightarrow> GameConfig
     \<Rightarrow> error + ((ActivePiece option \<times> PieceBag) \<times> rng)" where
  "spawnNextPiece r brd bg cfg =
     (case getNextPiece r bg of
        ((None, newBag), r') \<Rightarrow> Inl TypeError
      | ((Some t, newBag), r') \<Rightarrow> Inr ((spawnPiece brd t cfg, newBag), r'))"

definition lockActivePiece :: "int \<Rightarrow> BoardState \<Rightarrow> ActivePiece \<Rightarrow> BoardState \<times> Position list" where
  "lockActivePiece now brd piece =
     (let positions = getPieceBlocks piece
      in (lockPiece now brd positions (ptype piece), positions))"

definition processLineClears :: "int \<Rightarrow> BoardState \<Rightarrow> BoardState \<times> int list" where
  "processLineClears now brd =
     (let clearedRows = getFilledRows brd
      in if length clearedRows = 0 then (brd, []) else (clearRows now brd clearedRows, clearedRows))"

definition getDangerLevel :: "BoardState \<Rightarrow> real" where
  "getDangerLevel brd =
     (let highestRow = getHighestOccupiedRow brd
      in if highestRow = -1 then 0
         else
           let dangerThreshold = height (config brd) - 8
           in if highestRow < dangerThreshold then 0
              else
                let dangerRange = height (config brd) - dangerThreshold
                in min 1 (of_int (highestRow - dangerThreshold) / of_int dangerRange))"

definition updateGhostY :: "BoardState \<Rightarrow> ActivePiece \<Rightarrow> ActivePiece" where
  "updateGhostY brd piece = piece\<lparr>ghostY := calculateGhostY brd piece\<rparr>"

definition resetLockDelay :: "ActivePiece \<Rightarrow> GameConfig \<Rightarrow> ActivePiece" where
  "resetLockDelay piece cfg =
     (if moveResets (lockDelay piece) \<ge> maxResets (lockDelay piece) then piece
      else piece\<lparr>lockDelay := (lockDelay piece)\<lparr>remaining := cfg_lockDelay cfg,
                                                 moveResets := moveResets (lockDelay piece) + 1\<rparr>\<rparr>)"

definition activateLockDelay :: "ActivePiece \<Rightarrow> ActivePiece" where
  "activateLockDelay piece =
     (if active (lockDelay piece) then piece
      else piece\<lparr>lockDelay := (lockDelay piece)\<lparr>active := True\<rparr>\<rparr>)"

definition deactivateLockDelay :: "ActivePiece \<Rightarrow> ActivePiece" where
  "deactivateLockDelay piece =
     (if \<not> active (lockDelay piece) then piece
      else piece\<lparr>lockDelay := (lockDelay piece)\<lparr>active := False\<rparr>\<rparr>)"

definition updateLockDelay :: "ActivePiece \<Rightarrow> real \<Rightarrow> ActivePiece" where
  "updateLockDelay piece deltaMs =
     (if \<not> active (lockDelay piece) then piece
      else piece\<lparr>lockDelay := (lockDelay piece)\<lparr>remaining := remaining (lockDelay piece) - deltaMs\<rparr>\<rparr>)"

definition isLockDelayExpired :: "ActivePiece \<Rightarrow> bool" where
  "isLockDelayExpired piece = (active (lockDelay piece) \<and> remaining (lockDelay piece) \<le> 0)"

section \<open>The game loop (engine/GameLoop.ts)\<close>

record InputActions =
  moveLeft :: bool
  moveRight :: bool
  softDrop :: bool
  hardDrop :: bool
  rotateCW :: bool
  rotateCCW :: bool
  rotate180 :: bool
  holdKey :: bool

text \<open>
  An \<^verbatim>\<open>UpdateResult {state, events}\<close> is the pair \<open>(state, events)\<close>. The functions that
  draw from the bag also return the rest of the random stream, and fail with the
  TypeError of \<open>spawnNextPiece\<close>.
\<close>

type_synonym UpdateResult = "GameState \<times> GameEvent list"

definition processHold :: "rng \<Rightarrow> GameState \<Rightarrow> GameConfig \<Rightarrow> error + (UpdateResult \<times> rng)" where
  "processHold r state cfg =
     (case activePiece state of
        None \<Rightarrow> Inr ((state, []), r)
      | Some ap \<Rightarrow>
          if \<not> available (hold state) then Inr ((state, []), r)
          else
            let currentType = ptype ap
            in case heldPiece (hold state) of
                 Some heldType \<Rightarrow>
                   (case spawnNextPiece r (board state)
                           ((bag state)\<lparr>current := heldType # current (bag state)\<rparr>) cfg of
                      Inl e \<Rightarrow> Inl e
                    | Inr ((None, newBag), r') \<Rightarrow> Inr ((state, []), r')
                    | Inr ((Some np, newBag), r') \<Rightarrow>
                        let spawnedPiece =
                              np\<lparr>ptype := heldType,
                                 ghostY := calculateGhostY (board state) (np\<lparr>ptype := heldType\<rparr>)\<rparr>
                        in Inr ((state\<lparr>activePiece := Some spawnedPiece,
                                       hold := \<lparr>heldPiece = Some currentType, available = False\<rparr>,
                                       bag := bag state\<rparr>,
                                 [EvPieceHold (Some heldType) currentType]), r'))
               | None \<Rightarrow>
                   (case spawnNextPiece r (board state) (bag state) cfg of
                      Inl e \<Rightarrow> Inl e
                    | Inr ((None, newBag), r') \<Rightarrow> Inr ((state, []), r')
                    | Inr ((Some np, newBag), r') \<Rightarrow>
                        Inr ((state\<lparr>activePiece := Some np,
                                     hold := \<lparr>heldPiece = Some currentType, available = False\<rparr>,
                                     bag := newBag\<rparr>,
                              [EvPieceHold None currentType, EvPieceSpawn (ptype np)]), r')))"

text \<open>\<^verbatim>\<open>processRotation\<close> calls \<^verbatim>\<open>resetLockDelay\<close> without a configuration: the default.\<close>

definition processRotation :: "GameState \<Rightarrow> RotationDirection \<Rightarrow> UpdateResult" where
  "processRotation state dir =
     (case activePiece state of
        None \<Rightarrow> (state, [])
      | Some ap \<Rightarrow>
          (case rotatePiece (board state) ap dir of
             Some (p, wk, ki) \<Rightarrow>
               let np = updateGhostY (board state) p;
                   finalPiece = (if isOnGround (board state) np
                                 then resetLockDelay np DEFAULT_GAME_CONFIG else np)
               in (state\<lparr>activePiece := Some finalPiece\<rparr>,
                   [EvPieceRotate (rotation finalPiece) wk ki])
           | None \<Rightarrow> (state, [])))"

definition processMove :: "GameState \<Rightarrow> int \<Rightarrow> int \<Rightarrow> GameConfig \<Rightarrow> UpdateResult" where
  "processMove state dx dy cfg =
     (case activePiece state of
        None \<Rightarrow> (state, [])
      | Some ap \<Rightarrow>
          (case tryMove (board state) ap dx dy of
             Some moved \<Rightarrow>
               let np0 = updateGhostY (board state) moved;
                   np = (if isOnGround (board state) np0 then resetLockDelay np0 cfg else np0);
                   dir = (if dx < 0 then MoveLeft else if dx > 0 then MoveRight else MoveDown)
               in (state\<lparr>activePiece := Some np\<rparr>, [EvPieceMove dir (position np)])
           | None \<Rightarrow> (state, [])))"

text \<open>
  The gravity loop of \<^verbatim>\<open>processGravity\<close>: one cell down per unit of the accumulator,
  which is zeroed at the first blocked step. It returns
  \<open>(accumulator, newPiece, cellsDropped)\<close>.
\<close>

function gravityLoop ::
  "BoardState \<Rightarrow> bool \<Rightarrow> real \<Rightarrow> ActivePiece \<Rightarrow> int \<Rightarrow> real \<times> ActivePiece \<times> int" where
  "gravityLoop brd sd accumulator np cellsDropped =
     (if accumulator \<ge> 1 then
        (case tryMove brd np 0 (-1) of
           Some moved \<Rightarrow>
             gravityLoop brd sd (accumulator - 1)
               (if sd then moved\<lparr>softDropCells := softDropCells moved + 1\<rparr> else moved)
               (cellsDropped + 1)
         | None \<Rightarrow> (0, np, cellsDropped))
      else (accumulator, np, cellsDropped))"
  by pat_completeness auto
termination
proof (relation "measure (\<lambda>(brd, sd, accumulator, np, cellsDropped). nat \<lfloor>accumulator\<rfloor>)")
  show "wf (measure (\<lambda>(brd, sd, accumulator, np, cellsDropped). nat \<lfloor>accumulator :: real\<rfloor>))"
    by simp
next
  fix brd :: BoardState and sd :: bool and accumulator :: real
    and np :: ActivePiece and cellsDropped :: int and moved :: ActivePiece
  assume "1 \<le> accumulator"
  then have "1 \<le> \<lfloor>accumulator\<rfloor>" and "\<lfloor>accumulator - 1\<rfloor> = \<lfloor>accumulator\<rfloor> - 1"
    by linarith+
  then show "((brd, sd, accumulator - 1,
               if sd then moved\<lparr>softDropCells := softDropCells moved + 1\<rparr> else moved,
               cellsDropped + 1),
              (brd, sd, accumulator, np, cellsDropped))
             \<in> measure (\<lambda>(brd, sd, accumulator, np, cellsDropped). nat \<lfloor>accumulator\<rfloor>)"
    by simp
qed

declare gravityLoop.simps [simp del]

definition processGravity :: "GameState \<Rightarrow> real \<Rightarrow> bool \<Rightarrow> GameConfig \<Rightarrow> UpdateResult" where
  "processGravity state deltaMs sd cfg =
     (case activePiece state of
        None \<Rightarrow> (state, [])
      | Some ap \<Rightarrow>
          let baseSpeed = gravitySpeed (timing state);
              speed = (if sd then baseSpeed * softDropMultiplier cfg else baseSpeed);
              cellsPerMs = speed / 1000;
              (accumulator, np0, cellsDropped) =
                 gravityLoop (board state) sd
                   (gravityAccumulator (timing state) + deltaMs * cellsPerMs) ap 0;
              np = updateGhostY (board state) np0
          in (state\<lparr>activePiece := Some np,
                    timing := (timing state)\<lparr>gravityAccumulator := accumulator\<rparr>\<rparr>,
              if sd \<and> cellsDropped > 0 then [EvSoftDrop cellsDropped] else []))"

text \<open>
  The level-up loop of \<^verbatim>\<open>processLock\<close>; \<open>levelEvents\<close> are the level-up events pushed so
  far. It returns \<open>(remainingLines, newLevel, levelEvents)\<close>.
\<close>

function levelUpLoop ::
  "GameConfig \<Rightarrow> int \<Rightarrow> int \<Rightarrow> GameEvent list \<Rightarrow> int \<times> int \<times> GameEvent list" where
  "levelUpLoop cfg remainingLines newLevel levelEvents =
     (if remainingLines \<ge> linesPerLevel cfg \<and> newLevel < maxLevel cfg
      then levelUpLoop cfg (remainingLines - linesPerLevel cfg) (newLevel + 1)
             (levelEvents @ [EvLevelUp (newLevel + 1) (newLevel + 1 - 1)])
      else (remainingLines, newLevel, levelEvents))"
  by pat_completeness auto
termination
  by (relation "measure (\<lambda>(cfg, remainingLines, newLevel, levelEvents).
                  nat (maxLevel cfg - newLevel))") auto

declare levelUpLoop.simps [simp del]

definition processLock :: "int \<Rightarrow> GameState \<Rightarrow> GameConfig \<Rightarrow> UpdateResult" where
  "processLock now state cfg =
     (case activePiece state of
        None \<Rightarrow> (state, [])
      | Some piece \<Rightarrow>
          let (newBoard, lockedPositions) = lockActivePiece now (board state) piece;
              lockEvents = [EvPieceLock lockedPositions (ptype piece)];
              (clearedBoard, clearedRows) = processLineClears now newBoard;
              newState = state\<lparr>board := clearedBoard, activePiece := None,
                               hold := (hold state)\<lparr>available := True\<rparr>\<rparr>
          in if length clearedRows > 0 then
               let (isTSpin, isMini) =
                      detectTSpin (board state) piece (moveResets (lockDelay piece) > 0) 0;
                   clearType = getClearType (int (length clearedRows)) isTSpin isMini;
                   isDifficult = isDifficultClear clearType;
                   newComboCount = comboCount (combo state) + 1;
                   isBackToBack = (isDifficult \<and> backToBackActive (combo state));
                   newBackToBack = (if isDifficult
                                    then (if isBackToBack then backToBack (combo state) + 1 else 1)
                                    else 0);
                   points = calculateClearPoints clearType (level (score state)) newComboCount
                              isBackToBack DEFAULT_SCORING_CONFIG;
                   perfectClear = isPerfectClear clearedBoard;
                   totalPoints = (if perfectClear then points + 3000 * level (score state)
                                  else points);
                   heatContribution = calculateHeatContribution clearType newComboCount
                                        isBackToBack DEFAULT_HEAT_CONFIG;
                   newHeat = min 1 (heatLevel (streak state) + heatContribution);
                   clearEvent = \<lparr>ev_type = clearType, ev_lines = clearedRows,
                                  ev_timestamp = gameTime (timing state),
                                  ev_backToBack = isBackToBack, ev_comboCount = newComboCount,
                                  ev_points = totalPoints,
                                  ev_heatContribution = heatContribution\<rparr>;
                   clearEvents =
                     [EvLinesClear clearEvent]
                     @ (if newComboCount > 1 then [EvCombo newComboCount] else [])
                     @ (if isBackToBack \<and> newBackToBack > 1 then [EvBackToBack newBackToBack]
                        else [])
                     @ (if perfectClear then [EvPerfectClear (3000 * level (score state))]
                        else []);
                   newLinesCleared = linesCleared (score state) + int (length clearedRows);
                   newLinesAtLevel = linesAtLevel (score state) + int (length clearedRows);
                   (remainingLines, newLevel, levelEvents) =
                      levelUpLoop cfg newLinesAtLevel (level (score state)) [];
                   heatEvents = (if newHeat \<noteq> heatLevel (streak state)
                                 then [EvHeatChange newHeat heatContribution
                                         (heatLevel (streak state))]
                                 else [])
               in (newState\<lparr>
                     score := \<lparr>scoreTotal = scoreTotal (score state) + of_int totalPoints,
                               level = newLevel,
                               linesCleared = newLinesCleared,
                               linesAtLevel = remainingLines,
                               linesToNextLevel = linesPerLevel cfg - remainingLines\<rparr>,
                     combo := \<lparr>comboCount = newComboCount,
                               backToBack = newBackToBack,
                               backToBackActive = isDifficult,
                               perfectClears = (if perfectClear
                                                then perfectClears (combo state) + 1
                                                else perfectClears (combo state))\<rparr>,
                     streak := \<lparr>heatLevel = newHeat,
                                peakHeat = max (peakHeat (streak state)) newHeat,
                                timeSinceLastClear = 0,
                                recentClears =
                                  (let rc = recentClears (streak state) @ [clearEvent]
                                   in drop (length rc - 10) rc)\<rparr>,
                     timing := (timing state)\<lparr>gravitySpeed := calculateGravity newLevel,
                                              baseGravity := calculateGravity newLevel\<rparr>\<rparr>,
                   lockEvents @ clearEvents @ levelEvents @ heatEvents)
             else
               (newState\<lparr>combo := (combo state)\<lparr>comboCount := 0,
                                   backToBackActive := backToBackActive (combo state)\<rparr>\<rparr>,
                lockEvents))"

definition processHardDrop :: "int \<Rightarrow> GameState \<Rightarrow> GameConfig \<Rightarrow> UpdateResult" where
  "processHardDrop now state cfg =
     (case activePiece state of
        None \<Rightarrow> (state, [])
      | Some ap \<Rightarrow>
          let (positions, dropDistance) = getDropPositions (board state) ap;
              startY = snd (position ap);
              droppedPiece = ap\<lparr>position := (fst (position ap), ghostY ap),
                                lockDelay := (lockDelay ap)\<lparr>active := True, remaining := 0\<rparr>\<rparr>;
              dropEvents = [EvHardDrop startY (snd (position droppedPiece)) dropDistance];
              (lockState, lockEvents) =
                 processLock now (state\<lparr>activePiece := Some droppedPiece\<rparr>) cfg;
              hardDropPoints = of_int dropDistance * softDropMultiplier cfg * 2;
              newScore = (score lockState)\<lparr>scoreTotal := scoreTotal (score lockState)
                                                           + hardDropPoints\<rparr>
          in (lockState\<lparr>score := newScore\<rparr>, dropEvents @ lockEvents))"

definition processSpawn :: "rng \<Rightarrow> GameState \<Rightarrow> GameConfig \<Rightarrow> error + (UpdateResult \<times> rng)" where
  "processSpawn r state cfg =
     (case spawnNextPiece r (board state) (bag state) cfg of
        Inl e \<Rightarrow> Inl e
      | Inr ((None, newBag), r') \<Rightarrow>
          Inr ((state\<lparr>phase := GameOver\<rparr>,
                [EvGameOver (scoreTotal (score state)) (level (score state))
                   (linesCleared (score state))]), r')
      | Inr ((Some piece, newBag), r') \<Rightarrow>
          Inr ((state\<lparr>activePiece := Some piece, bag := newBag\<rparr>,
                [EvPieceSpawn (ptype piece)]), r'))"

text \<open>
  \<^verbatim>\<open>updateGame\<close> is one function in the source; its body is a sequence of steps on
  \<^verbatim>\<open>newState\<close> and \<^verbatim>\<open>events\<close>. Each step is a definition here, in the order of the
  source, and \<open>updateGame_beforeSpawn\<close> is the body up to the spawn step.
\<close>

definition updateGame_timing :: "GameState \<Rightarrow> real \<Rightarrow> GameState" where
  "updateGame_timing state deltaMs =
     (let s1 = state\<lparr>timing := (timing state)\<lparr>gameTime := gameTime (timing state) + deltaMs\<rparr>\<rparr>;
          newHeat = decayHeat (heatLevel (streak s1)) deltaMs DEFAULT_HEAT_CONFIG
      in if newHeat \<noteq> heatLevel (streak s1)
         then s1\<lparr>streak := (streak s1)\<lparr>heatLevel := newHeat,
                                        timeSinceLastClear :=
                                          timeSinceLastClear (streak s1) + deltaMs\<rparr>\<rparr>
         else s1)"

definition updateGame_hold ::
  "rng \<Rightarrow> GameState \<Rightarrow> InputActions \<Rightarrow> GameConfig \<Rightarrow> error + (UpdateResult \<times> rng)" where
  "updateGame_hold r state actions cfg =
     (if holdKey actions \<and> available (hold state) \<and> activePiece state \<noteq> None
      then processHold r state cfg
      else Inr ((state, []), r))"

definition updateGame_rotation :: "GameState \<Rightarrow> InputActions \<Rightarrow> UpdateResult" where
  "updateGame_rotation state actions =
     (if activePiece state \<noteq> None then
        (if rotateCW actions then processRotation state CW
         else if rotateCCW actions then processRotation state CCW
         else if rotate180 actions then processRotation state Rot180
         else (state, []))
      else (state, []))"

definition updateGame_move :: "GameState \<Rightarrow> InputActions \<Rightarrow> GameConfig \<Rightarrow> UpdateResult" where
  "updateGame_move state actions cfg =
     (if activePiece state \<noteq> None then
        (if moveLeft actions then processMove state (-1) 0 cfg
         else if moveRight actions then processMove state 1 0 cfg
         else (state, []))
      else (state, []))"

definition updateGame_drop ::
  "int \<Rightarrow> GameState \<Rightarrow> real \<Rightarrow> InputActions \<Rightarrow> GameConfig \<Rightarrow> UpdateResult" where
  "updateGame_drop now state deltaMs actions cfg =
     (if hardDrop actions \<and> activePiece state \<noteq> None then processHardDrop now state cfg
      else if activePiece state \<noteq> None then processGravity state deltaMs (softDrop actions) cfg
      else (state, []))"

definition updateGame_lockDelay :: "int \<Rightarrow> GameState \<Rightarrow> real \<Rightarrow> GameConfig \<Rightarrow> UpdateResult" where
  "updateGame_lockDelay now state deltaMs cfg =
     (case activePiece state of
        None \<Rightarrow> (state, [])
      | Some ap \<Rightarrow>
          if isOnGround (board state) ap then
            (let ap1 = activateLockDelay ap;
                 ap2 = updateLockDelay ap1 deltaMs;
                 s2 = state\<lparr>activePiece := Some ap2\<rparr>
             in if isLockDelayExpired ap2 then processLock now s2 cfg else (s2, []))
          else (state\<lparr>activePiece := Some (deactivateLockDelay ap)\<rparr>, []))"

definition updateGame_beforeSpawn ::
  "int \<Rightarrow> rng \<Rightarrow> GameState \<Rightarrow> real \<Rightarrow> InputActions \<Rightarrow> GameConfig
     \<Rightarrow> error + (UpdateResult \<times> rng)" where
  "updateGame_beforeSpawn now r state deltaMs actions cfg =
     (let s1 = updateGame_timing state deltaMs
      in case updateGame_hold r s1 actions cfg of
           Inl e \<Rightarrow> Inl e
         | Inr ((s2, e2), r2) \<Rightarrow>
             let (s3, e3) = updateGame_rotation s2 actions;
                 (s4, e4) = updateGame_move s3 actions cfg;
                 (s5, e5) = updateGame_drop now s4 deltaMs actions cfg;
                 (s6, e6) = updateGame_lockDelay now s5 deltaMs cfg
             in Inr ((s6, e2 @ e3 @ e4 @ e5 @ e6), r2))"

definition updateGame_spawn ::
  "rng \<Rightarrow> GameState \<Rightarrow> GameConfig \<Rightarrow> error + (UpdateResult \<times> rng)" where
  "updateGame_spawn r state cfg =
     (if activePiece state = None \<and> phase state = Playing then processSpawn r state cfg
      else Inr ((state, []), r))"

definition updateGame ::
  "int \<Rightarrow> rng \<Rightarrow> GameState \<Rightarrow> real \<Rightarrow> InputActions \<Rightarrow> GameConfig
     \<Rightarrow> error + (UpdateResult \<times> rng)" where
  "updateGame now r state deltaMs actions cfg =
     (if phase state \<noteq> Playing then Inr ((state, []), r)
      else
        case updateGame_beforeSpawn now r state deltaMs actions cfg of
          Inl e \<Rightarrow> Inl e
        | Inr ((s6, ev6), r6) \<Rightarrow>
            (case updateGame_spawn r6 s6 cfg of
               Inl e \<Rightarrow> Inl e
             | Inr ((s7, e7), r7) \<Rightarrow>
                 let dangerLevel = getDangerLevel (board s7)
                 in Inr ((s7, ev6 @ e7
                              @ (if dangerLevel > 0 then [EvDangerZone True dangerLevel] else [])),
                         r7)))"

section \<open>Initial sub-states and sample values\<close>

text \<open>
  The \<^verbatim>\<open>create...State\<close> functions of the source, and the sample piece, board and game
  state on which the theorems below are instantiated. \<open>demoBoard occupied\<close> is the
  default 10 by 20 board (4 buffer rows) with the cells \<open>occupied\<close> locked on it.
\<close>

definition createScoreState :: ScoreState where
  "createScoreState =
     \<lparr>scoreTotal = 0, level = 1, linesCleared = 0, linesAtLevel = 0,
      linesToNextLevel = sc_linesPerLevel DEFAULT_SCORING_CONFIG\<rparr>"

definition createComboState :: ComboState where
  "createComboState = \<lparr>comboCount = 0, backToBack = 0, backToBackActive = False, perfectClears = 0\<rparr>"

definition createStreakState :: StreakState where
  "createStreakState = \<lparr>heatLevel = 0, peakHeat = 0, timeSinceLastClear = 0, recentClears = []\<rparr>"

definition createInputState :: InputState where
  "createInputState =
     \<lparr>das = \<lparr>direction = None, chargeTime = 0, autoRepeatActive = False\<rparr>,
      softDropHeld = False, hardDropTriggered = False, rotationQueue = [], holdTriggered = False\<rparr>"

definition createTimingState :: "int \<Rightarrow> TimingState" where
  "createTimingState startLvl =
     (let g = calculateGravity startLvl
      in \<lparr>gameTime = 0, lastUpdateTime = 0, gravityAccumulator = 0, gravitySpeed = g,
          baseGravity = g\<rparr>)"

definition createHoldState :: HoldState where
  "createHoldState = \<lparr>heldPiece = None, available = True\<rparr>"

definition demoPiece :: "TetrominoType \<Rightarrow> Position \<Rightarrow> RotationState \<Rightarrow> ActivePiece" where
  "demoPiece t pos rot =
     \<lparr>ptype = t, position = pos, rotation = rot, ghostY = snd pos,
      lockDelay = \<lparr>active = False, remaining = 500, moveResets = 0, maxResets = 15\<rparr>,
      softDropCells = 0\<rparr>"

definition demoBoard :: "Position list \<Rightarrow> BoardState" where
  "demoBoard occupied = lockPiece 0 (createBoard 0 DEFAULT_BOARD_CONFIG) occupied Tet_I"

definition demoState :: "GamePhase \<Rightarrow> BoardState \<Rightarrow> ActivePiece option \<Rightarrow> GameState" where
  "demoState ph brd ap =
     \<lparr>phase = ph, board = brd, activePiece = ap, hold = createHoldState,
      bag = \<lparr>current = [Tet_I, Tet_O, Tet_T, Tet_S, Tet_Z, Tet_J, Tet_L],
             nextBag = [Tet_L, Tet_J, Tet_Z, Tet_S, Tet_T, Tet_O, Tet_I],
             preview = [Tet_I, Tet_O, Tet_T]\<rparr>,
      score = createScoreState, combo = createComboState, streak = createStreakState,
      timing = createTimingState 1, input = createInputState, modeState = ClassicMode None,
      frameEvents = [], seed = 0\<rparr>"

definition noActions :: InputActions where
  "noActions =
     \<lparr>moveLeft = False, moveRight = False, softDrop = False, hardDrop = False, rotateCW = False,
      rotateCCW = False, rotate180 = False, holdKey = False\<rparr>"


section \<open>Sample-board facts\<close>

lemma demo_empty_lookup: "DAList.lookup (cells (demoBoard [])) k = None"
  by (simp add: demoBoard_def lockPiece_def createBoard_def)


section \<open>C9: a quarter turn and back through the zero-offset kick\<close>

lemma tryKicks_index_ge:
  "success (tryKicks brd piece nr ks i) \<Longrightarrow> i \<le> kickIndex (tryKicks brd piece nr ks i)"
proof (induction ks arbitrary: i)
  case Nil
  then show ?case by (simp add: rotationFailed_def)
next
  case (Cons k ks)
  show ?case
  proof (cases "canPlacePiece brd (ptype piece)
                  (fst (position piece) + fst k, snd (position piece) + snd k) nr")
    case True
    then show ?thesis by (simp add: Let_def)
  next
    case False
    with Cons.prems have "success (tryKicks brd piece nr ks (i + 1))"
      by (simp add: Let_def)
    from Cons.IH [OF this] False show ?thesis
      by (simp add: Let_def)
  qed
qed

lemma tryKicks_first:
  assumes "success (tryKicks brd piece nr (k # ks) i)"
    and "kickIndex (tryKicks brd piece nr (k # ks) i) = i"
  shows "newPiece (tryKicks brd piece nr (k # ks) i)
           = Some (piece\<lparr>position := (fst (position piece) + fst k, snd (position piece) + snd k),
                         rotation := nr\<rparr>)"
proof (cases "canPlacePiece brd (ptype piece)
                (fst (position piece) + fst k, snd (position piece) + snd k) nr")
  case True
  then show ?thesis by (simp add: Let_def)
next
  case False
  with assms have s: "success (tryKicks brd piece nr ks (i + 1))"
    and e: "kickIndex (tryKicks brd piece nr ks (i + 1)) = i"
    by (simp_all add: Let_def)
  from tryKicks_index_ge [OF s] e show ?thesis by simp
qed

lemma quarter_turn_key_in_table:
  assumes "dir \<noteq> Rot180"
  shows "\<exists>ks. getWallKicks t (getWallKickKey rot (getNewRotation rot dir)) = Some ((0, 0) # ks)"
  using assms
  by (cases dir; cases rot)
     (simp_all add: getWallKicks_def getWallKickKey_def getNewRotation_def rotIndex_def rotOfNat_def)

lemma tryRotateQuarter_zero_kick:
  assumes "dir \<noteq> Rot180"
    and "success (tryRotateQuarter brd piece dir)"
    and "kickIndex (tryRotateQuarter brd piece dir) = 0"
  shows "newPiece (tryRotateQuarter brd piece dir)
           = Some (piece\<lparr>position := position piece,
                         rotation := getNewRotation (rotation piece) dir\<rparr>)"
proof -
  from quarter_turn_key_in_table [OF assms(1)] obtain ks where
    k: "getWallKicks (ptype piece)
          (getWallKickKey (rotation piece) (getNewRotation (rotation piece) dir))
        = Some ((0, 0) # ks)"
    by blast
  have eq: "tryRotateQuarter brd piece dir
              = tryKicks brd piece (getNewRotation (rotation piece) dir) ((0, 0) # ks) 0"
    by (simp add: tryRotateQuarter_def Let_def k)
  from assms(2,3) tryKicks_first [of brd piece "getNewRotation (rotation piece) dir" "(0,0)" ks 0]
  show ?thesis
    unfolding eq by simp
qed

lemma getNewRotation_cw_ccw: "getNewRotation (getNewRotation rot CW) CCW = rot"
  by (cases rot) (simp_all add: getNewRotation_def rotIndex_def rotOfNat_def)

lemma tryRotate_quarter: "dir \<noteq> Rot180 \<Longrightarrow> tryRotate brd piece dir = tryRotateQuarter brd piece dir"
  by (simp add: tryRotate_def)


text \<open>
  Claim C9. For every piece at a legal placement: when rotating it clockwise succeeds with
  kick index 0 and rotating the result counter-clockwise succeeds with kick index 0 as
  well, the final piece has the position and the rotation state of the original piece.
\<close>

theorem rotate_cw_then_ccw_restores:
  assumes "isValidPiecePosition brd piece"
    and "success (tryRotate brd piece CW)"
    and "kickIndex (tryRotate brd piece CW) = 0"
    and "newPiece (tryRotate brd piece CW) = Some p1"
    and "success (tryRotate brd p1 CCW)"
    and "kickIndex (tryRotate brd p1 CCW) = 0"
    and "newPiece (tryRotate brd p1 CCW) = Some p2"
  shows "position p2 = position piece \<and> rotation p2 = rotation piece"
proof -
  have p1: "p1 = piece\<lparr>position := position piece, rotation := getNewRotation (rotation piece) CW\<rparr>"
    using assms(2-4) tryRotateQuarter_zero_kick [of CW brd piece]
    by (simp add: tryRotate_quarter)
  have p2: "p2 = p1\<lparr>position := position p1, rotation := getNewRotation (rotation p1) CCW\<rparr>"
    using assms(5-7) tryRotateQuarter_zero_kick [of CCW brd p1]
    by (simp add: tryRotate_quarter)
  show ?thesis
    by (simp add: p1 p2 getNewRotation_cw_ccw)
qed

theorem rotate_cw_then_ccw_restores_witness:
  "isValidPiecePosition (demoBoard []) (demoPiece Tet_T (4, 5) R0)
   \<and> success (tryRotate (demoBoard []) (demoPiece Tet_T (4, 5) R0) CW)
   \<and> kickIndex (tryRotate (demoBoard []) (demoPiece Tet_T (4, 5) R0) CW) = 0
   \<and> newPiece (tryRotate (demoBoard []) (demoPiece Tet_T (4, 5) R0) CW)
       = Some (demoPiece Tet_T (4, 5) R1)
   \<and> success (tryRotate (demoBoard []) (demoPiece Tet_T (4, 5) R1) CCW)
   \<and> kickIndex (tryRotate (demoBoard []) (demoPiece Tet_T (4, 5) R1) CCW) = 0
   \<and> newPiece (tryRotate (demoBoard []) (demoPiece Tet_T (4, 5) R1) CCW)
       = Some (demoPiece Tet_T (4, 5) R0)
   \<and> position (demoPiece Tet_T (4, 5) R0) = (4, 5)
   \<and> rotation (demoPiece Tet_T (4, 5) R0) = R0"
proof -
  have cfgs: "config (demoBoard []) = DEFAULT_BOARD_CONFIG"
    by (simp add: demoBoard_def lockPiece_def createBoard_def)
  have v: "isValidPiecePosition (demoBoard []) (demoPiece Tet_T (4, 5) R0)"
    by (simp add: isValidPiecePosition_def getPieceBlocks_def demoPiece_def isValidPosition_def
        isCellOccupied_def demo_empty_lookup cfgs DEFAULT_BOARD_CONFIG_def totalHeight_def)
  have r1: "tryRotate (demoBoard []) (demoPiece Tet_T (4, 5) R0) CW
            = \<lparr>success = True, newPiece = Some (demoPiece Tet_T (4, 5) R1), wasWallKick = False,
               kickIndex = 0\<rparr>"
    by (simp add: tryRotate_def tryRotateQuarter_def getNewRotation_def rotIndex_def rotOfNat_def
        getWallKicks_def getWallKickKey_def canPlacePiece_def demoPiece_def isValidPosition_def
        isCellOccupied_def demo_empty_lookup cfgs DEFAULT_BOARD_CONFIG_def totalHeight_def)
  have r2: "tryRotate (demoBoard []) (demoPiece Tet_T (4, 5) R1) CCW
            = \<lparr>success = True, newPiece = Some (demoPiece Tet_T (4, 5) R0), wasWallKick = False,
               kickIndex = 0\<rparr>"
    by (simp add: tryRotate_def tryRotateQuarter_def getNewRotation_def rotIndex_def rotOfNat_def
        getWallKicks_def getWallKickKey_def canPlacePiece_def demoPiece_def isValidPosition_def
        isCellOccupied_def demo_empty_lookup cfgs DEFAULT_BOARD_CONFIG_def totalHeight_def)
  from rotate_cw_then_ccw_restores [of "demoBoard []" "demoPiece Tet_T (4, 5) R0"
        "demoPiece Tet_T (4, 5) R1" "demoPiece Tet_T (4, 5) R0"] v r1 r2
  show ?thesis by (simp add: demoPiece_def)
qed


section \<open>C10: a state that is not playing is left alone\<close>

text \<open>
  Claim C10. For every game state whose phase is not \<open>Playing\<close>, the update returns the
  state itself, every field unchanged, and no event, whatever the elapsed time, the
  actions and the configuration; it reads neither the clock nor the random stream.
\<close>

theorem updateGame_not_playing_unchanged:
  assumes "phase state \<noteq> Playing"
  shows "updateGame now r state deltaMs actions cfg = Inr ((state, []), r)"
  using assms by (simp add: updateGame_def)

theorem updateGame_not_playing_unchanged_witness:
  "phase (demoState Paused (demoBoard []) (Some (demoPiece Tet_T (4, 5) R0))) \<noteq> Playing
   \<and> updateGame 0 (\<lambda>n. 0) (demoState Paused (demoBoard []) (Some (demoPiece Tet_T (4, 5) R0)))
        (50 / 3) (noActions\<lparr>hardDrop := True\<rparr>) DEFAULT_GAME_CONFIG
      = Inr ((demoState Paused (demoBoard []) (Some (demoPiece Tet_T (4, 5) R0)), []), (\<lambda>n. 0))"
proof -
  have "phase (demoState Paused (demoBoard []) (Some (demoPiece Tet_T (4, 5) R0))) \<noteq> Playing"
    by (simp add: demoState_def)
  from this updateGame_not_playing_unchanged [OF this] show ?thesis
    by simp
qed

section \<open>C6: seven draws from a full bag\<close>

text \<open>
  \<open>drawPieces n\<close> is the list of pieces returned by \<open>n\<close> consecutive calls of
  \<^verbatim>\<open>getNextPiece\<close>, each on the bag and the random stream the call before left.
\<close>

fun drawPieces :: "nat \<Rightarrow> rng \<Rightarrow> PieceBag \<Rightarrow> TetrominoType option list" where
  "drawPieces 0 r bg = []"
| "drawPieces (Suc n) r bg =
     (case getNextPiece r bg of ((piece, newBag), r') \<Rightarrow> piece # drawPieces n r' newBag)"

lemma getNextPiece_piece:
  "fst (fst (getNextPiece r bg)) = (case current bg of [] \<Rightarrow> None | p # _ \<Rightarrow> Some p)"
  by (simp add: getNextPiece_def Let_def split_beta)

lemma getNextPiece_current:
  "current (snd (fst (getNextPiece r bg)))
     = (if tl (current bg) = [] then nextBag bg else tl (current bg))"
  by (simp add: getNextPiece_def Let_def split_beta)

lemma getNextPiece_nextBag:
  "nextBag (snd (fst (getNextPiece r bg)))
     = (if tl (current bg) = [] then fst (createBag r) else nextBag bg)"
  by (simp add: getNextPiece_def Let_def split_beta)

lemma drawPieces_from_current:
  "n \<le> length (current bg) \<Longrightarrow> drawPieces n r bg = map Some (take n (current bg))"
proof (induction n arbitrary: r bg)
  case 0
  show ?case by simp
next
  case (Suc n)
  then obtain p rest where cur: "current bg = p # rest"
    by (cases "current bg") auto
  obtain piece newBag r' where g: "getNextPiece r bg = ((piece, newBag), r')"
    by (metis surj_pair)
  have piece: "piece = Some p"
    using getNextPiece_piece [of r bg] by (simp add: g cur)
  have newcur: "current newBag = (if rest = [] then nextBag bg else rest)"
    using getNextPiece_current [of r bg] by (simp add: g cur)
  show ?case
  proof (cases "rest = []")
    case True
    with Suc.prems cur have "n = 0" by simp
    then show ?thesis by (simp add: g piece cur)
  next
    case False
    with Suc.prems cur newcur have "n \<le> length (current newBag)" by simp
    from Suc.IH [OF this] show ?thesis
      by (simp add: g piece cur newcur False)
  qed
qed

lemma UNIV_TetrominoType: "(UNIV :: TetrominoType set) = {Tet_I, Tet_O, Tet_T, Tet_S, Tet_Z, Tet_J, Tet_L}"
proof -
  have "t \<in> {Tet_I, Tet_O, Tet_T, Tet_S, Tet_Z, Tet_J, Tet_L}" for t
    by (cases t) simp_all
  then show ?thesis by blast
qed

lemma full_permutation_each_once:
  fixes xs :: "TetrominoType list"
  assumes "length xs = 7" and "distinct xs"
  shows "count_list xs t = 1"
proof -
  have "card (set xs) = 7"
    using assms by (simp add: distinct_card)
  moreover have "card (UNIV :: TetrominoType set) = 7"
    by (simp add: UNIV_TetrominoType)
  moreover have "finite (UNIV :: TetrominoType set)"
    by (simp add: UNIV_TetrominoType)
  ultimately have "set xs = UNIV"
    by (intro card_subset_eq) simp_all
  then have "t \<in> set xs" by simp
  with assms(2) show ?thesis
    by (induction xs) auto
qed


text \<open>
  Claim C6. For every bag aligned to a bag boundary, that is whose \<open>current\<close> queue holds a
  full permutation of the seven piece types (seven entries, no repetition), the seven
  consecutive draws through \<^verbatim>\<open>getNextPiece\<close> return each piece type exactly once.
\<close>

theorem seven_draws_each_type_once:
  assumes "length (current bg) = 7" and "distinct (current bg)"
  shows "length (drawPieces 7 r bg) = 7 \<and> count_list (drawPieces 7 r bg) (Some t) = 1"
proof -
  have d: "drawPieces 7 r bg = map Some (current bg)"
    using drawPieces_from_current [of 7 bg r] assms(1) by simp
  have "count_list (map Some (current bg)) (Some t) = count_list (current bg) t"
    by (rule count_list_map_conv) simp
  with full_permutation_each_once [OF assms] show ?thesis
    by (simp add: d assms(1))
qed

theorem seven_draws_each_type_once_witness:
  "length (current (bag (demoState Playing (demoBoard []) None))) = 7
   \<and> distinct (current (bag (demoState Playing (demoBoard []) None)))
   \<and> drawPieces 7 (\<lambda>n. 1 / 2) (bag (demoState Playing (demoBoard []) None))
       = [Some Tet_I, Some Tet_O, Some Tet_T, Some Tet_S, Some Tet_Z, Some Tet_J, Some Tet_L]
   \<and> length (drawPieces 7 (\<lambda>n. 1 / 2) (bag (demoState Playing (demoBoard []) None))) = 7
   \<and> count_list (drawPieces 7 (\<lambda>n. 1 / 2) (bag (demoState Playing (demoBoard []) None)))
        (Some Tet_S) = 1"
proof -
  have l: "length (current (bag (demoState Playing (demoBoard []) None))) = 7"
    and d: "distinct (current (bag (demoState Playing (demoBoard []) None)))"
    by (simp_all add: demoState_def)
  have v: "drawPieces 7 (\<lambda>n. 1 / 2) (bag (demoState Playing (demoBoard []) None))
       = [Some Tet_I, Some Tet_O, Some Tet_T, Some Tet_S, Some Tet_Z, Some Tet_J, Some Tet_L]"
    using drawPieces_from_current [of 7 "bag (demoState Playing (demoBoard []) None)" "\<lambda>n. 1 / 2"]
    by (simp add: demoState_def)
  from l d v seven_draws_each_type_once [OF l d, of "\<lambda>n. 1 / 2" Tet_S] show ?thesis
    by simp
qed

text \<open>
  The bags the code creates meet the premise of C6: when the random source answers in
  \<open>[0, 1)\<close>, as \<^verbatim>\<open>Math.random()\<close> does, the Fisher-Yates loop only swaps entries inside
  the array, so \<^verbatim>\<open>createBag\<close> returns seven different piece types.
\<close>

definition unitRandom :: "rng \<Rightarrow> bool" where
  "unitRandom r \<longleftrightarrow> (\<forall>n. 0 \<le> r n \<and> r n < 1)"

lemma shuffleLoop_permutes:
  assumes "unitRandom r" and "k < length xs"
  shows "length (fst (shuffleLoop k xs r)) = length xs
         \<and> distinct (fst (shuffleLoop k xs r)) = distinct xs"
  using assms
proof (induction k arbitrary: xs r)
  case 0
  show ?case by simp
next
  case (Suc k)
  let ?u = "r 0"
  let ?j = "nat \<lfloor>?u * real (Suc k + 1)\<rfloor>"
  let ?xs = "xs[Suc k := xs ! ?j, ?j := xs ! Suc k]"
  from Suc.prems(1) have u: "0 \<le> ?u" "?u < 1"
    by (simp_all add: unitRandom_def)
  then have "?u * real (Suc k + 1) < real (Suc k + 1)"
    by simp
  then have "\<lfloor>?u * real (Suc k + 1)\<rfloor> < int (Suc k + 1)"
    by (simp add: floor_less_iff)
  then have j: "?j < length xs"
    using Suc.prems(2) by linarith
  have r': "unitRandom (\<lambda>n. r (Suc n))"
    using Suc.prems(1) by (simp add: unitRandom_def)
  have k: "k < length ?xs"
    using Suc.prems(2) by simp
  have d: "distinct ?xs = distinct xs"
    using distinct_swap [OF Suc.prems(2) j] .
  from Suc.IH [OF r' k] d show ?case
    by (simp add: rngNext_def Let_def)
qed

lemma createBag_full_permutation:
  assumes "unitRandom r"
  shows "length (fst (createBag r)) = 7 \<and> distinct (fst (createBag r))"
proof -
  let ?pieces = "[Tet_I, Tet_O, Tet_T, Tet_S, Tet_Z, Tet_J, Tet_L]"
  have n: "length ?pieces - 1 = 6" and l: "length ?pieces = 7" and d: "distinct ?pieces"
    by simp_all
  have c: "createBag r = shuffleLoop 6 ?pieces r"
    unfolding createBag_def Let_def n ..
  have "6 < length ?pieces"
    by simp
  from shuffleLoop_permutes [OF assms this] show ?thesis
    unfolding c l using d by blast
qed


section \<open>C5: clearing the filled rows\<close>

text \<open>
  The data model's invariant on a board: every stored coordinate lies inside the grid,
  \<open>0 \<le> x < width\<close> and \<open>0 \<le> y < height + bufferRows\<close>.
\<close>

definition boardInBounds :: "BoardState \<Rightarrow> bool" where
  "boardInBounds brd =
     list_all (\<lambda>pos. isValidPosition brd (fst pos) (snd pos)) (map fst (DAList.impl_of (cells brd)))"

text \<open>
  \<open>keptRows sortedRows ys\<close> are the rows of \<open>ys\<close> that the inner loop of \<^verbatim>\<open>clearRows\<close>
  does not skip; \<open>survivingRows\<close> is the same list for the whole column, in terms of the
  rows handed to \<^verbatim>\<open>clearRows\<close>.
\<close>

definition keptRows :: "int list \<Rightarrow> int list \<Rightarrow> int list" where
  "keptRows sortedRows ys = filter (\<lambda>y. \<not> List.member sortedRows y) ys"

lemma alist_dom_keys: "dom (DAList.lookup al) = set (map fst (DAList.impl_of al))"
  by (simp add: DAList.lookup.rep_eq dom_map_of_conv_image_fst)

lemma alist_size_card: "size al = card (dom (DAList.lookup al))"
proof -
  have "card (set (map fst (DAList.impl_of al))) = length (map fst (DAList.impl_of al))"
    by (rule distinct_card) simp
  then show ?thesis
    by (simp add: alist_dom_keys size_alist_def)
qed

lemma occupied_iff_dom: "isCellOccupied brd x y \<longleftrightarrow> (x, y) \<in> dom (DAList.lookup (cells brd))"
  by (auto simp: isCellOccupied_def)

lemma clearColumn_dom:
  "(x', y') \<in> dom (DAList.lookup (clearColumn brd sr x ys w nc)) \<longleftrightarrow>
     (x', y') \<in> dom (DAList.lookup nc)
     \<or> (x' = x \<and> w \<le> y' \<and> nat (y' - w) < length (keptRows sr ys)
        \<and> isCellOccupied brd x (keptRows sr ys ! nat (y' - w)))"
proof (induction ys arbitrary: w nc)
  case Nil
  show ?case by (simp add: keptRows_def)
next
  case (Cons y rest)
  show ?case
  proof (cases "List.member sr y")
    case True
    then show ?thesis
      using Cons.IH [of w nc] by (simp add: keptRows_def)
  next
    case False
    let ?nc = "case getCell brd x y of Some cell \<Rightarrow> DAList.update (x, w) cell nc | None \<Rightarrow> nc"
    have nc: "(x', y') \<in> dom (DAList.lookup ?nc) \<longleftrightarrow>
                (x', y') \<in> dom (DAList.lookup nc) \<or> (x' = x \<and> y' = w \<and> isCellOccupied brd x y)"
      by (auto simp: getCell_def isCellOccupied_def DAList.lookup_update
          split: option.splits if_splits)
    have kept: "keptRows sr (y # rest) = y # keptRows sr rest"
      using False by (simp add: keptRows_def)
    have step: "clearColumn brd sr x (y # rest) w nc = clearColumn brd sr x rest (w + 1) ?nc"
      using False by simp
    have idx: "(w \<le> y' \<and> nat (y' - w) < Suc (length (keptRows sr rest))
                \<and> isCellOccupied brd x ((y # keptRows sr rest) ! nat (y' - w)))
               \<longleftrightarrow> (y' = w \<and> isCellOccupied brd x y)
                   \<or> (w + 1 \<le> y' \<and> nat (y' - (w + 1)) < length (keptRows sr rest)
                      \<and> isCellOccupied brd x (keptRows sr rest ! nat (y' - (w + 1))))"
    proof (cases "y' = w")
      case True
      then show ?thesis by simp
    next
      case False
      show ?thesis
      proof (cases "w \<le> y'")
        case True
        with False have "nat (y' - w) = Suc (nat (y' - (w + 1)))" by simp
        with True False show ?thesis by simp
      next
        case False
        then show ?thesis by simp
      qed
    qed
    show ?thesis
      unfolding step Cons.IH [of "w + 1" ?nc] nc kept
      using idx by auto
  qed
qed

lemma clearColumns_dom:
  "(x', y') \<in> dom (DAList.lookup (fold (\<lambda>x nc. clearColumn brd sr x ys 0 nc) xs nc0)) \<longleftrightarrow>
     (x', y') \<in> dom (DAList.lookup nc0)
     \<or> (x' \<in> set xs \<and> 0 \<le> y' \<and> nat y' < length (keptRows sr ys)
        \<and> isCellOccupied brd x' (keptRows sr ys ! nat y'))"
proof (induction xs arbitrary: nc0)
  case Nil
  show ?case by simp
next
  case (Cons x xs)
  show ?case
    unfolding fold_Cons comp_apply Cons.IH clearColumn_dom [where w = 0]
    by auto
qed

lemma clearRows_config: "config (clearRows now brd rows) = config brd"
  by (simp add: clearRows_def Let_def)

lemma clearRows_totalHeight: "totalHeight (clearRows now brd rows) = totalHeight brd"
  by (simp add: totalHeight_def clearRows_config)

definition survivingRows :: "BoardState \<Rightarrow> int list \<Rightarrow> int list" where
  "survivingRows brd rows = filter (\<lambda>y. y \<notin> set rows) [0 .. totalHeight brd - 1]"

lemma keptRows_surviving:
  "keptRows (rev (sort rows)) [0 .. totalHeight brd - 1] = survivingRows brd rows"
  by (simp add: keptRows_def survivingRows_def)

lemma clearRows_occupied:
  assumes "rows \<noteq> []"
  shows "isCellOccupied (clearRows now brd rows) x y \<longleftrightarrow>
           0 \<le> x \<and> x < width (config brd) \<and> 0 \<le> y \<and> nat y < length (survivingRows brd rows)
           \<and> isCellOccupied brd x (survivingRows brd rows ! nat y)"
proof -
  have "cells (clearRows now brd rows)
          = fold (\<lambda>x nc. clearColumn brd (rev (sort rows)) x [0 .. totalHeight brd - 1] 0 nc)
              [0 .. width (config brd) - 1] DAList.empty"
    using assms by (simp add: clearRows_def Let_def)
  then show ?thesis
    unfolding occupied_iff_dom [of "clearRows now brd rows"]
    by (simp only: clearColumns_dom keptRows_surviving) auto
qed

lemma rowFilled_iff:
  "rowFilled brd y \<longleftrightarrow> (\<forall>x. 0 \<le> x \<and> x < width (config brd) \<longrightarrow> isCellOccupied brd x y)"
  by (auto simp: rowFilled_def list_all_iff)

lemma getFilledRows_set:
  "set (getFilledRows brd) = {y. 0 \<le> y \<and> y < totalHeight brd \<and> rowFilled brd y}"
  by (auto simp: getFilledRows_def)

lemma getFilledRows_distinct: "distinct (getFilledRows brd)"
  by (simp add: getFilledRows_def)

lemma survivingRows_set:
  "set (survivingRows brd rows) = {y. 0 \<le> y \<and> y < totalHeight brd \<and> y \<notin> set rows}"
  by (auto simp: survivingRows_def)

lemma survivingRows_distinct: "distinct (survivingRows brd rows)"
  by (simp add: survivingRows_def)

lemma cleared_board_has_no_filled_row:
  assumes w: "0 < width (config brd)"
  shows "getFilledRows (clearRows now brd (getFilledRows brd)) = []"
proof (cases "getFilledRows brd = []")
  case True
  then show ?thesis by (simp add: clearRows_def)
next
  case False
  let ?rows = "getFilledRows brd"
  let ?new = "clearRows now brd ?rows"
  let ?kept = "survivingRows brd ?rows"
  have "\<not> rowFilled ?new y" for y
  proof (cases "0 \<le> y \<and> nat y < length ?kept")
    case True
    then have "?kept ! nat y \<in> set ?kept" by simp
    then have "\<not> rowFilled brd (?kept ! nat y)"
      by (auto simp: survivingRows_set getFilledRows_set)
    then obtain x where x: "0 \<le> x" "x < width (config brd)"
      and free: "\<not> isCellOccupied brd x (?kept ! nat y)"
      by (auto simp: rowFilled_iff)
    from free have "\<not> isCellOccupied ?new x y"
      by (simp add: clearRows_occupied [OF False])
    with x show ?thesis
      by (auto simp: rowFilled_iff clearRows_config)
  next
    case False
    then have "\<not> isCellOccupied ?new 0 y"
      by (auto simp: clearRows_occupied [OF \<open>?rows \<noteq> []\<close>])
    with w show ?thesis
      by (auto simp: rowFilled_iff clearRows_config)
  qed
  then show ?thesis
    by (simp add: getFilledRows_def)
qed

lemma boardInBounds_dom:
  assumes "boardInBounds brd" and "(x, y) \<in> dom (DAList.lookup (cells brd))"
  shows "0 \<le> x \<and> x < width (config brd) \<and> 0 \<le> y \<and> y < totalHeight brd"
proof -
  from assms(2) have "(x, y) \<in> set (map fst (DAList.impl_of (cells brd)))"
    by (simp only: alist_dom_keys)
  with assms(1) have "isValidPosition brd (fst (x, y)) (snd (x, y))"
    unfolding boardInBounds_def list_all_iff by blast
  then show ?thesis
    by (simp add: isValidPosition_def)
qed

lemma cleared_board_cell_count:
  assumes w: "0 \<le> width (config brd)" and inb: "boardInBounds brd"
  shows "int (size (cells (clearRows now brd (getFilledRows brd))))
           = int (size (cells brd)) - int (length (getFilledRows brd)) * width (config brd)"
proof (cases "getFilledRows brd = []")
  case True
  then show ?thesis by (simp add: clearRows_def)
next
  case False
  let ?rows = "getFilledRows brd"
  let ?new = "clearRows now brd ?rows"
  let ?kept = "survivingRows brd ?rows"
  let ?W = "width (config brd)"
  let ?D = "dom (DAList.lookup (cells brd))"
  let ?N = "dom (DAList.lookup (cells ?new))"
  let ?K = "{(x, y). 0 \<le> x \<and> x < ?W \<and> y \<in> set ?kept \<and> isCellOccupied brd x y}"
  let ?F = "{0 ..< ?W} \<times> set ?rows"
  let ?g = "\<lambda>(x :: int, y :: int). (x, ?kept ! nat y)"
  have N: "?N = {(x, y). 0 \<le> x \<and> x < ?W \<and> 0 \<le> y \<and> nat y < length ?kept
                  \<and> isCellOccupied brd x (?kept ! nat y)}"
    using clearRows_occupied [OF False, of now brd]
    by (auto simp: occupied_iff_dom [of ?new])
  have inj: "inj_on ?g ?N"
  proof (rule inj_onI)
    fix p q assume p: "p \<in> ?N" and q: "q \<in> ?N" and e: "?g p = ?g q"
    obtain px py qx qy where pq: "p = (px, py)" "q = (qx, qy)"
      by (metis surj_pair)
    from p q have b: "0 \<le> py" "nat py < length ?kept" "0 \<le> qy" "nat qy < length ?kept"
      unfolding N pq by auto
    from e have "px = qx" and "?kept ! nat py = ?kept ! nat qy"
      by (simp_all add: pq)
    with b have "nat py = nat qy"
      using survivingRows_distinct [of brd ?rows] by (simp add: nth_eq_iff_index_eq)
    with b \<open>px = qx\<close> show "p = q"
      by (simp add: pq)
  qed
  have img: "?g ` ?N = ?K"
  proof (rule set_eqI)
    fix p :: "int \<times> int"
    obtain x y where p: "p = (x, y)" by (metis surj_pair)
    show "p \<in> ?g ` ?N \<longleftrightarrow> p \<in> ?K"
    proof
      assume "p \<in> ?g ` ?N"
      then show "p \<in> ?K"
        unfolding N by auto
    next
      assume "p \<in> ?K"
      then have k: "0 \<le> x" "x < ?W" "y \<in> set ?kept" "isCellOccupied brd x y"
        by (simp_all add: p)
      then obtain i where i: "i < length ?kept" "?kept ! i = y"
        by (auto simp: in_set_conv_nth)
      with k have "(x, int i) \<in> ?N"
        unfolding N by simp
      moreover have "?g (x, int i) = p"
        using i by (simp add: p)
      ultimately show "p \<in> ?g ` ?N"
        by (metis imageI)
    qed
  qed
  have cardN: "card ?N = card ?K"
    using card_image [OF inj] img by simp
  have D: "?D = ?K \<union> ?F"
  proof (rule set_eqI)
    fix p :: "int \<times> int"
    obtain x y where p: "p = (x, y)" by (metis surj_pair)
    show "p \<in> ?D \<longleftrightarrow> p \<in> ?K \<union> ?F"
    proof
      assume d: "p \<in> ?D"
      with boardInBounds_dom [OF inb, of x y]
      have b: "0 \<le> x" "x < ?W" "0 \<le> y" "y < totalHeight brd"
        by (simp_all add: p)
      from d have "isCellOccupied brd x y"
        by (simp add: occupied_iff_dom p)
      with b show "p \<in> ?K \<union> ?F"
        by (auto simp: p survivingRows_set)
    next
      assume "p \<in> ?K \<union> ?F"
      then show "p \<in> ?D"
        by (auto simp: p occupied_iff_dom [symmetric] getFilledRows_set rowFilled_iff)
    qed
  qed
  have disj: "?K \<inter> ?F = {}"
    by (auto simp: survivingRows_set)
  have finD: "finite ?D"
    by (simp add: alist_dom_keys)
  then have fin: "finite ?K" "finite ?F"
    unfolding D by simp_all
  have cardF: "card ?F = nat ?W * length ?rows"
    by (simp add: card_cartesian_product distinct_card [OF getFilledRows_distinct])
  have "card ?D = card ?K + card ?F"
    unfolding D using fin disj by (simp add: card_Un_disjoint)
  then have "size (cells brd) = size (cells ?new) + nat ?W * length ?rows"
    by (simp add: alist_size_card cardN cardF)
  then have "int (size (cells brd)) = int (size (cells ?new)) + int (nat ?W) * int (length ?rows)"
    by (metis of_nat_add of_nat_mult)
  with w show ?thesis
    by (simp add: mult.commute)
qed


text \<open>
  Claim C5. For every board (of positive width, with every cell inside the grid as the
  data model requires), clearing the rows that the filled-row scan returns yields a board
  on which the scan returns the empty list, and whose cell count is the original cell
  count minus the number of cleared rows times the board width.
\<close>

theorem clear_filled_rows_leaves_none:
  assumes "0 < width (config brd)" and "boardInBounds brd"
  shows "getFilledRows (clearRows now brd (getFilledRows brd)) = []
         \<and> int (size (cells (clearRows now brd (getFilledRows brd))))
             = int (size (cells brd)) - int (length (getFilledRows brd)) * width (config brd)"
  using assms cleared_board_has_no_filled_row [of brd now] cleared_board_cell_count [of brd now]
  by simp


section \<open>Facts about locking cells and the sample board\<close>

lemma setCell_lookup:
  "DAList.lookup (cells (setCell now brd x y (Some c))) k
     = (if k = (x, y) then Some c else DAList.lookup (cells brd) k)"
  by (auto simp: setCell_def DAList.lookup_update)

lemma setCell_config: "config (setCell now brd x y c) = config brd"
  by (simp add: setCell_def Let_def)

lemma lockPiece_lookup:
  "DAList.lookup (cells (lockPiece now brd ps t)) k
     = (if k \<in> set ps then Some \<lparr>ctype = t, lockedAt = Some now, special = None\<rparr>
        else DAList.lookup (cells brd) k)"
  unfolding lockPiece_def
  by (induction ps arbitrary: brd) (auto simp: setCell_lookup)

lemma lockPiece_config: "config (lockPiece now brd ps t) = config brd"
  unfolding lockPiece_def
  by (induction ps arbitrary: brd) (simp_all add: setCell_config)

lemma lockPiece_occupied:
  "isCellOccupied (lockPiece now brd ps t) x y \<longleftrightarrow> (x, y) \<in> set ps \<or> isCellOccupied brd x y"
  by (simp add: isCellOccupied_def lockPiece_lookup)

lemma lockPiece_dom:
  "dom (DAList.lookup (cells (lockPiece now brd ps t))) = set ps \<union> dom (DAList.lookup (cells brd))"
  by (auto simp: lockPiece_lookup split: if_splits)

lemma demoBoard_config: "config (demoBoard occupied) = DEFAULT_BOARD_CONFIG"
  by (simp add: demoBoard_def lockPiece_config createBoard_def)

lemma demoBoard_occupied: "isCellOccupied (demoBoard occupied) x y \<longleftrightarrow> (x, y) \<in> set occupied"
  by (simp add: demoBoard_def lockPiece_occupied) (simp add: isCellOccupied_def createBoard_def)

lemma alist_empty_dom: "dom (DAList.lookup DAList.empty) = {}"
  by (simp add: dom_def)

lemma demoBoard_dom: "dom (DAList.lookup (cells (demoBoard occupied))) = set occupied"
  by (simp add: demoBoard_def lockPiece_dom createBoard_def alist_empty_dom)

lemma upto_from_0: "[0 .. j] = (if 0 \<le> j then 0 # [1 .. j] else [])"
  by (simp add: upto.simps [of 0 j])

lemma upto_from_1: "[1 .. j] = (if 1 \<le> j then 1 # [2 .. j] else [])"
  by (simp add: upto.simps [of 1 j])

lemmas upto_unfold = upto_from_0 upto_from_1

lemma demoBoard_size: "distinct occupied \<Longrightarrow> size (cells (demoBoard occupied)) = length occupied"
  by (simp add: alist_size_card demoBoard_dom distinct_card)

lemma boardInBounds_iff:
  "boardInBounds brd \<longleftrightarrow> (\<forall>p \<in> dom (DAList.lookup (cells brd)). isValidPosition brd (fst p) (snd p))"
  by (simp add: boardInBounds_def list_all_iff alist_dom_keys)

lemma demoBoard_inBounds:
  "boardInBounds (demoBoard occupied)
     \<longleftrightarrow> list_all (\<lambda>p. 0 \<le> fst p \<and> fst p < 10 \<and> 0 \<le> snd p \<and> snd p < 24) occupied"
  by (simp add: boardInBounds_iff demoBoard_dom list_all_iff isValidPosition_def totalHeight_def
      demoBoard_config DEFAULT_BOARD_CONFIG_def)

definition bottomRowAndOne :: "Position list" where
  "bottomRowAndOne =
     [(0, 0), (1, 0), (2, 0), (3, 0), (4, 0), (5, 0), (6, 0), (7, 0), (8, 0), (9, 0), (3, 1)]"

lemma demo_rows: "getFilledRows (demoBoard bottomRowAndOne) = [0]"
  by (simp add: getFilledRows_def rowFilled_def demoBoard_occupied demoBoard_config
      DEFAULT_BOARD_CONFIG_def totalHeight_def bottomRowAndOne_def upto_unfold)

theorem clear_filled_rows_leaves_none_witness:
  "0 < width (config (demoBoard bottomRowAndOne))
   \<and> boardInBounds (demoBoard bottomRowAndOne)
   \<and> getFilledRows (demoBoard bottomRowAndOne) = [0]
   \<and> size (cells (demoBoard bottomRowAndOne)) = 11
   \<and> getFilledRows (clearRows 0 (demoBoard bottomRowAndOne) [0]) = []
   \<and> size (cells (clearRows 0 (demoBoard bottomRowAndOne) [0])) = 1"
proof -
  have w: "0 < width (config (demoBoard bottomRowAndOne))"
    by (simp add: demoBoard_config DEFAULT_BOARD_CONFIG_def)
  have b: "boardInBounds (demoBoard bottomRowAndOne)"
    by (simp add: demoBoard_inBounds bottomRowAndOne_def)
  have s: "size (cells (demoBoard bottomRowAndOne)) = 11"
    by (simp add: demoBoard_size bottomRowAndOne_def)
  from clear_filled_rows_leaves_none [OF w b, of 0] w b s show ?thesis
    by (simp add: demo_rows demoBoard_config DEFAULT_BOARD_CONFIG_def)
qed

section \<open>The board invariant is kept\<close>

text \<open>
  The premise of C5 that every cell lies inside the grid holds of the boards the engine
  builds: of the empty board, after locking a piece at a legal placement, and after
  clearing rows.
\<close>

lemma createBoard_in_bounds: "boardInBounds (createBoard now cfg)"
  by (simp add: boardInBounds_iff createBoard_def alist_empty_dom)

lemma lockPiece_in_bounds:
  assumes "boardInBounds brd"
    and "list_all (\<lambda>pos. isValidPosition brd (fst pos) (snd pos)) ps"
  shows "boardInBounds (lockPiece now brd ps t)"
proof -
  have "isValidPosition (lockPiece now brd ps t) x y = isValidPosition brd x y" for x y
    by (simp add: isValidPosition_def totalHeight_def lockPiece_config)
  with assms show ?thesis
    by (auto simp: boardInBounds_iff lockPiece_dom list_all_iff)
qed

lemma lockActivePiece_in_bounds:
  assumes "boardInBounds brd" and "isValidPiecePosition brd piece"
  shows "boardInBounds (fst (lockActivePiece now brd piece))"
proof -
  from assms(2) have "list_all (\<lambda>pos. isValidPosition brd (fst pos) (snd pos)) (getPieceBlocks piece)"
    by (simp add: isValidPiecePosition_def list_all_iff)
  from lockPiece_in_bounds [OF assms(1) this] show ?thesis
    by (simp add: lockActivePiece_def Let_def)
qed

lemma survivingRows_length: "int (length (survivingRows brd rows)) \<le> max 0 (totalHeight brd)"
proof -
  have "length (survivingRows brd rows) \<le> length [0 .. totalHeight brd - 1]"
    unfolding survivingRows_def by (rule length_filter_le)
  then show ?thesis
    by simp
qed

lemma clearRows_in_bounds:
  assumes "boardInBounds brd"
  shows "boardInBounds (clearRows now brd rows)"
proof (cases "rows = []")
  case True
  with assms show ?thesis by (simp add: clearRows_def)
next
  case False
  have "isValidPosition (clearRows now brd rows) x y"
    if "isCellOccupied (clearRows now brd rows) x y" for x y
  proof -
    from that have b: "0 \<le> x" "x < width (config brd)" "0 \<le> y"
      "nat y < length (survivingRows brd rows)"
      by (simp_all add: clearRows_occupied [OF False])
    with survivingRows_length [of brd rows] have "y < totalHeight brd"
      by linarith
    with b show ?thesis
      by (simp add: isValidPosition_def clearRows_config clearRows_totalHeight)
  qed
  then show ?thesis
    by (auto simp: boardInBounds_iff occupied_iff_dom)
qed


section \<open>What a lock computes\<close>

text \<open>
  Names for the values \<^verbatim>\<open>processLock\<close> computes on its way: the board with the piece
  locked on it, the rows the filled-row scan then returns, the result of the t-spin
  detection (called with the constant kick index 0, as the source does), the clear type,
  and the points of the clear event.
\<close>

definition lockedBoard :: "int \<Rightarrow> GameState \<Rightarrow> ActivePiece \<Rightarrow> BoardState" where
  "lockedBoard now state piece = fst (lockActivePiece now (board state) piece)"

definition lockClearedRows :: "int \<Rightarrow> GameState \<Rightarrow> ActivePiece \<Rightarrow> int list" where
  "lockClearedRows now state piece = getFilledRows (lockedBoard now state piece)"

definition lockTSpin :: "GameState \<Rightarrow> ActivePiece \<Rightarrow> bool \<times> bool" where
  "lockTSpin state piece =
     detectTSpin (board state) piece (moveResets (lockDelay piece) > 0) 0"

definition lockClearType :: "int \<Rightarrow> GameState \<Rightarrow> ActivePiece \<Rightarrow> ClearType" where
  "lockClearType now state piece =
     getClearType (int (length (lockClearedRows now state piece)))
       (fst (lockTSpin state piece)) (snd (lockTSpin state piece))"

fun clearEventsOf :: "GameEvent list \<Rightarrow> ClearEvent list" where
  "clearEventsOf [] = []"
| "clearEventsOf (EvLinesClear ce # evs) = ce # clearEventsOf evs"
| "clearEventsOf (_ # evs) = clearEventsOf evs"

lemma clearEventsOf_append: "clearEventsOf (xs @ ys) = clearEventsOf xs @ clearEventsOf ys"
  by (induction xs rule: clearEventsOf.induct) simp_all

lemma levelUpLoop_no_clear_event:
  "clearEventsOf evs = [] \<Longrightarrow> clearEventsOf (snd (snd (levelUpLoop cfg rem lvl evs))) = []"
proof (induction cfg rem lvl evs rule: levelUpLoop.induct)
  case (1 cfg remainingLines newLevel levelEvents)
  show ?case
  proof (cases "remainingLines \<ge> linesPerLevel cfg \<and> newLevel < maxLevel cfg")
    case True
    have "clearEventsOf (levelEvents @ [EvLevelUp (newLevel + 1) (newLevel + 1 - 1)]) = []"
      using "1.prems" by (simp add: clearEventsOf_append)
    from "1.IH" [OF True this] True show ?thesis
      by (subst levelUpLoop.simps) simp
  next
    case False
    then show ?thesis
      using "1.prems" by (subst levelUpLoop.simps) auto
  qed
qed

lemma processLineClears_rows: "snd (processLineClears now brd) = getFilledRows brd"
  by (simp add: processLineClears_def Let_def)

lemma processLineClears_board:
  "fst (processLineClears now brd) = clearRows now brd (getFilledRows brd)"
  by (simp add: processLineClears_def Let_def clearRows_def)

lemma processLock_no_clear:
  assumes "activePiece state = Some piece" and "lockClearedRows now state piece = []"
  shows "processLock now state cfg
           = (state\<lparr>board := lockedBoard now state piece, activePiece := None,
                    hold := (hold state)\<lparr>available := True\<rparr>,
                    combo := (combo state)\<lparr>comboCount := 0\<rparr>\<rparr>,
              [EvPieceLock (getPieceBlocks piece) (ptype piece)])"
proof -
  have rows: "snd (processLineClears now (fst (lockActivePiece now (board state) piece))) = []"
    using assms(2) by (simp add: processLineClears_rows lockClearedRows_def lockedBoard_def)
  have brd: "fst (processLineClears now (fst (lockActivePiece now (board state) piece)))
               = lockedBoard now state piece"
    using assms(2)
    by (simp add: processLineClears_def Let_def lockClearedRows_def lockedBoard_def)
  have pos: "snd (lockActivePiece now (board state) piece) = getPieceBlocks piece"
    by (simp add: lockActivePiece_def Let_def)
  show ?thesis
    unfolding processLock_def
    by (simp add: assms(1) split_beta rows brd pos Let_def split del: if_split)
qed


section \<open>C4: a lock that clears no row\<close>

text \<open>
  Claim C4. For every lock that clears no row, the resulting state has combo count 0, and
  its back-to-back flag has the value it had before the lock.
\<close>

theorem lock_without_clear_resets_combo_keeps_back_to_back:
  assumes "activePiece state = Some piece" and "lockClearedRows now state piece = []"
  shows "comboCount (combo (fst (processLock now state cfg))) = 0
         \<and> backToBackActive (combo (fst (processLock now state cfg)))
             = backToBackActive (combo state)"
  by (simp add: processLock_no_clear [OF assms])

lemma lockedBoard_occupied:
  "isCellOccupied (lockedBoard now state piece) x y
     \<longleftrightarrow> (x, y) \<in> set (getPieceBlocks piece) \<or> isCellOccupied (board state) x y"
  by (simp add: lockedBoard_def lockActivePiece_def Let_def lockPiece_occupied)

lemma lockedBoard_config: "config (lockedBoard now state piece) = config (board state)"
  by (simp add: lockedBoard_def lockActivePiece_def Let_def lockPiece_config)

definition chainState :: "BoardState \<Rightarrow> ActivePiece \<Rightarrow> GameState" where
  "chainState brd piece =
     (demoState Playing brd (Some piece))
       \<lparr>combo := \<lparr>comboCount = 3, backToBack = 2, backToBackActive = True, perfectClears = 0\<rparr>\<rparr>"

lemma chain_no_rows:
  "lockClearedRows 0 (chainState (demoBoard []) (demoPiece Tet_I (4, 0) R0))
     (demoPiece Tet_I (4, 0) R0) = []"
  by (simp add: lockClearedRows_def getFilledRows_def rowFilled_def lockedBoard_occupied
      lockedBoard_config chainState_def demoState_def demoBoard_occupied demoBoard_config
      DEFAULT_BOARD_CONFIG_def totalHeight_def getPieceBlocks_def demoPiece_def upto_unfold)

theorem lock_without_clear_resets_combo_keeps_back_to_back_witness:
  "activePiece (chainState (demoBoard []) (demoPiece Tet_I (4, 0) R0))
     = Some (demoPiece Tet_I (4, 0) R0)
   \<and> lockClearedRows 0 (chainState (demoBoard []) (demoPiece Tet_I (4, 0) R0))
        (demoPiece Tet_I (4, 0) R0) = []
   \<and> comboCount (combo (chainState (demoBoard []) (demoPiece Tet_I (4, 0) R0))) = 3
   \<and> backToBackActive (combo (chainState (demoBoard []) (demoPiece Tet_I (4, 0) R0)))
   \<and> comboCount (combo (fst (processLock 0 (chainState (demoBoard []) (demoPiece Tet_I (4, 0) R0))
                                  DEFAULT_GAME_CONFIG))) = 0
   \<and> backToBackActive (combo (fst (processLock 0
         (chainState (demoBoard []) (demoPiece Tet_I (4, 0) R0)) DEFAULT_GAME_CONFIG)))"
proof -
  have a: "activePiece (chainState (demoBoard []) (demoPiece Tet_I (4, 0) R0))
             = Some (demoPiece Tet_I (4, 0) R0)"
    by (simp add: chainState_def demoState_def)
  have c: "comboCount (combo (chainState (demoBoard []) (demoPiece Tet_I (4, 0) R0))) = 3"
    "backToBackActive (combo (chainState (demoBoard []) (demoPiece Tet_I (4, 0) R0)))"
    by (simp_all add: chainState_def)
  from lock_without_clear_resets_combo_keeps_back_to_back [OF a chain_no_rows,
      of DEFAULT_GAME_CONFIG] a c chain_no_rows
  show ?thesis by simp
qed

section \<open>The clearing branch of a lock\<close>

definition lockPoints :: "int \<Rightarrow> GameState \<Rightarrow> ActivePiece \<Rightarrow> int" where
  "lockPoints now state piece =
     (let clearType = lockClearType now state piece;
          points = calculateClearPoints clearType (level (score state))
                     (comboCount (combo state) + 1)
                     (isDifficultClear clearType \<and> backToBackActive (combo state))
                     DEFAULT_SCORING_CONFIG
      in if isPerfectClear (clearRows now (lockedBoard now state piece)
                              (lockClearedRows now state piece))
         then points + 3000 * level (score state) else points)"

lemma lock_clear_parts:
  assumes "lockClearedRows now state piece \<noteq> []"
  shows "snd (processLineClears now (fst (lockActivePiece now (board state) piece)))
           = lockClearedRows now state piece"
    and "fst (processLineClears now (fst (lockActivePiece now (board state) piece)))
           = clearRows now (lockedBoard now state piece) (lockClearedRows now state piece)"
    and "0 < length (lockClearedRows now state piece)"
  using assms
  by (simp_all add: processLineClears_rows processLineClears_board lockClearedRows_def
      lockedBoard_def)

lemma lockClearType_fold:
  "getClearType (int (length (lockClearedRows now state piece)))
     (fst (detectTSpin (board state) piece (0 < moveResets (lockDelay piece)) 0))
     (snd (detectTSpin (board state) piece (0 < moveResets (lockDelay piece)) 0))
   = lockClearType now state piece"
  by (simp add: lockClearType_def lockTSpin_def)

lemma processLock_clear_combo:
  assumes "activePiece state = Some piece" and "lockClearedRows now state piece \<noteq> []"
  shows "combo (fst (processLock now state cfg))
           = \<lparr>comboCount = comboCount (combo state) + 1,
              backToBack = (if isDifficultClear (lockClearType now state piece)
                            then (if isDifficultClear (lockClearType now state piece)
                                     \<and> backToBackActive (combo state)
                                  then backToBack (combo state) + 1 else 1)
                            else 0),
              backToBackActive = isDifficultClear (lockClearType now state piece),
              perfectClears =
                (if isPerfectClear (clearRows now (lockedBoard now state piece)
                                      (lockClearedRows now state piece))
                 then perfectClears (combo state) + 1 else perfectClears (combo state))\<rparr>"
  unfolding processLock_def
  by (simp add: assms split_beta Let_def lock_clear_parts [OF assms(2)]
      lockClearType_fold cong: if_cong)

lemma processLock_clear_event:
  assumes "activePiece state = Some piece" and "lockClearedRows now state piece \<noteq> []"
  shows "clearEventsOf (snd (processLock now state cfg))
           = [\<lparr>ev_type = lockClearType now state piece,
               ev_lines = lockClearedRows now state piece,
               ev_timestamp = gameTime (timing state),
               ev_backToBack = (isDifficultClear (lockClearType now state piece)
                                \<and> backToBackActive (combo state)),
               ev_comboCount = comboCount (combo state) + 1,
               ev_points = lockPoints now state piece,
               ev_heatContribution =
                 calculateHeatContribution (lockClearType now state piece)
                   (comboCount (combo state) + 1)
                   (isDifficultClear (lockClearType now state piece)
                    \<and> backToBackActive (combo state))
                   DEFAULT_HEAT_CONFIG\<rparr>]"
  unfolding processLock_def
  by (simp add: assms split_beta Let_def lock_clear_parts [OF assms(2)]
      lockClearType_def lockTSpin_def lockPoints_def
      clearEventsOf_append levelUpLoop_no_clear_event)

lemma processLock_clear_score:
  assumes "activePiece state = Some piece" and "lockClearedRows now state piece \<noteq> []"
  shows "scoreTotal (score (fst (processLock now state cfg)))
           = scoreTotal (score state) + of_int (lockPoints now state piece)"
  unfolding processLock_def
  by (simp add: assms split_beta Let_def lock_clear_parts [OF assms(2)]
      lockClearType_def lockTSpin_def lockPoints_def split del: if_split)

lemma processLock_clear_heat:
  assumes "activePiece state = Some piece" and "lockClearedRows now state piece \<noteq> []"
  shows "heatLevel (streak (fst (processLock now state cfg)))
           = min 1 (heatLevel (streak state)
                    + calculateHeatContribution (lockClearType now state piece)
                        (comboCount (combo state) + 1)
                        (isDifficultClear (lockClearType now state piece)
                         \<and> backToBackActive (combo state))
                        DEFAULT_HEAT_CONFIG)"
  unfolding processLock_def
  by (simp add: assms split_beta Let_def lock_clear_parts [OF assms(2)]
      lockClearType_def lockTSpin_def split del: if_split)


section \<open>Sample locks: a single and a tetris\<close>

text \<open>
  \<open>singleClearState\<close>: the bottom row is full but for column 9, and an upright I piece
  sits in column 9. \<open>tetrisState\<close>: the four bottom rows are full but for column 9, one
  more cell lies above them, and the same I piece sits in column 9. Both states are at
  level 1 with combo count 0 and back-to-back not active.
\<close>

lemma occupied_not_perfect_clear:
  assumes "isCellOccupied brd x y"
  shows "\<not> isPerfectClear brd"
proof -
  from assms have "(x, y) \<in> dom (DAList.lookup (cells brd))"
    by (simp add: occupied_iff_dom)
  moreover have "finite (dom (DAList.lookup (cells brd)))"
    by (simp add: alist_dom_keys)
  ultimately have "card (dom (DAList.lookup (cells brd))) \<noteq> 0"
    by auto
  then show ?thesis
    by (simp add: isPerfectClear_def alist_size_card)
qed

definition nineInBottomRow :: "Position list" where
  "nineInBottomRow = [(x, 0). x \<leftarrow> [0 .. 8]]"

definition fourRowsOpenRight :: "Position list" where
  "fourRowsOpenRight = [(x, y). y \<leftarrow> [0 .. 3], x \<leftarrow> [0 .. 8]] @ [(0, 4)]"

definition uprightI :: ActivePiece where
  "uprightI = demoPiece Tet_I (8, 1) R1"

definition singleClearState :: GameState where
  "singleClearState = demoState Playing (demoBoard nineInBottomRow) (Some uprightI)"

definition tetrisState :: GameState where
  "tetrisState = demoState Playing (demoBoard fourRowsOpenRight) (Some uprightI)"

lemmas sample_eval =
  getFilledRows_def rowFilled_def lockedBoard_occupied lockedBoard_config demoState_def
  demoBoard_occupied demoBoard_config DEFAULT_BOARD_CONFIG_def totalHeight_def
  getPieceBlocks_def demoPiece_def upto_unfold

lemma single_rows: "lockClearedRows 0 singleClearState uprightI = [0]"
  by (simp add: lockClearedRows_def singleClearState_def uprightI_def nineInBottomRow_def
      sample_eval)

lemma single_tspin: "lockTSpin singleClearState uprightI = (False, False)"
  by (simp add: lockTSpin_def detectTSpin_def uprightI_def demoPiece_def)

lemma single_type: "lockClearType 0 singleClearState uprightI = Single"
  by (simp add: lockClearType_def single_rows single_tspin getClearType_def)

lemma tetris_rows: "lockClearedRows 0 tetrisState uprightI = [0, 1, 2, 3]"
  by (simp add: lockClearedRows_def tetrisState_def uprightI_def fourRowsOpenRight_def
      sample_eval)

lemma tetris_tspin: "lockTSpin tetrisState uprightI = (False, False)"
  by (simp add: lockTSpin_def detectTSpin_def uprightI_def demoPiece_def)

lemma tetris_type: "lockClearType 0 tetrisState uprightI = Tetris"
  by (simp add: lockClearType_def tetris_rows tetris_tspin getClearType_def)

lemma tetris_not_perfect:
  "\<not> isPerfectClear (clearRows 0 (lockedBoard 0 tetrisState uprightI)
                       (lockClearedRows 0 tetrisState uprightI))"
proof -
  have "isCellOccupied (clearRows 0 (lockedBoard 0 tetrisState uprightI) [0, 1, 2, 3]) 0 0"
    by (subst clearRows_occupied)
       (simp_all add: survivingRows_def tetrisState_def uprightI_def fourRowsOpenRight_def
          sample_eval)
  then show ?thesis
    by (simp add: tetris_rows occupied_not_perfect_clear)
qed



section \<open>C3: a clear that is not difficult\<close>

text \<open>
  The claim as stated asks for combo count 0 after an easy clear. On the sample single
  clear the combo count goes from 0 to 1.
\<close>

theorem easy_clear_counterexample:
  "activePiece singleClearState = Some uprightI
   \<and> lockClearedRows 0 singleClearState uprightI = [0]
   \<and> lockClearType 0 singleClearState uprightI = Single
   \<and> isDifficultClear Single = False
   \<and> comboCount (combo singleClearState) = 0
   \<and> comboCount (combo (fst (processLock 0 singleClearState DEFAULT_GAME_CONFIG))) = 1"
proof -
  have a: "activePiece singleClearState = Some uprightI"
    by (simp add: singleClearState_def demoState_def)
  have r: "lockClearedRows 0 singleClearState uprightI \<noteq> []"
    by (simp add: single_rows)
  have c: "comboCount (combo singleClearState) = 0"
    by (simp add: singleClearState_def demoState_def createComboState_def)
  show ?thesis
    by (simp add: a c single_rows single_type isDifficultClear_def
        processLock_clear_combo [OF a r])
qed


text \<open>
  Claim C3, amended. For every lock that clears at least one row and whose clear type is
  not difficult (neither tetris nor a t-spin), the resulting combo count is the previous
  combo count plus one, the back-to-back chain count is 0 and back-to-back is no longer
  active.
\<close>

theorem easy_clear_extends_combo_breaks_back_to_back:
  assumes "activePiece state = Some piece"
    and "lockClearedRows now state piece \<noteq> []"
    and "\<not> isDifficultClear (lockClearType now state piece)"
  shows "comboCount (combo (fst (processLock now state cfg))) = comboCount (combo state) + 1
         \<and> backToBack (combo (fst (processLock now state cfg))) = 0
         \<and> \<not> backToBackActive (combo (fst (processLock now state cfg)))"
  using assms(3) by (simp add: processLock_clear_combo [OF assms(1,2)])

theorem easy_clear_extends_combo_breaks_back_to_back_witness:
  "activePiece singleClearState = Some uprightI
   \<and> lockClearedRows 0 singleClearState uprightI \<noteq> []
   \<and> \<not> isDifficultClear (lockClearType 0 singleClearState uprightI)
   \<and> comboCount (combo (fst (processLock 0 singleClearState DEFAULT_GAME_CONFIG)))
       = comboCount (combo singleClearState) + 1
   \<and> backToBack (combo (fst (processLock 0 singleClearState DEFAULT_GAME_CONFIG))) = 0
   \<and> \<not> backToBackActive (combo (fst (processLock 0 singleClearState DEFAULT_GAME_CONFIG)))"
proof -
  have a: "activePiece singleClearState = Some uprightI"
    by (simp add: singleClearState_def demoState_def)
  have r: "lockClearedRows 0 singleClearState uprightI \<noteq> []"
    by (simp add: single_rows)
  have d: "\<not> isDifficultClear (lockClearType 0 singleClearState uprightI)"
    by (simp add: single_type isDifficultClear_def)
  from easy_clear_extends_combo_breaks_back_to_back [OF a r d, of DEFAULT_GAME_CONFIG] a r d
  show ?thesis by simp
qed


section \<open>C1: the points of a first tetris\<close>

lemma first_tetris_points:
  assumes "length (lockClearedRows now state piece) = 4"
    and "\<not> fst (lockTSpin state piece)"
    and "level (score state) = 1"
    and "comboCount (combo state) = 0"
    and "\<not> backToBackActive (combo state)"
  shows "lockClearType now state piece = Tetris"
    and "lockPoints now state piece
           = 850 + (if isPerfectClear (clearRows now (lockedBoard now state piece)
                                         (lockClearedRows now state piece))
                    then 3000 else 0)"
proof -
  show t: "lockClearType now state piece = Tetris"
    using assms(1,2) by (simp add: lockClearType_def getClearType_def)
  show "lockPoints now state piece
           = 850 + (if isPerfectClear (clearRows now (lockedBoard now state piece)
                                         (lockClearedRows now state piece))
                    then 3000 else 0)"
    using assms(3-5)
    by (simp add: lockPoints_def t calculateClearPoints_def DEFAULT_SCORING_CONFIG_def)
qed


text \<open>
  Claim C1 says that a lock at level 1 that clears exactly 4 rows with no t-spin, from
  combo count 0 and back-to-back not active, is awarded 800 points. \<^verbatim>\<open>processLock\<close> hands
  the incremented combo count, 1, to \<^verbatim>\<open>calculateClearPoints\<close>, which adds the combo
  bonus 50 * 1 * 1: on the sample tetris the clear event carries 850 points and the
  score grows by 850.
\<close>

theorem first_tetris_scores_850:
  "activePiece tetrisState = Some uprightI
   \<and> level (score tetrisState) = 1
   \<and> comboCount (combo tetrisState) = 0
   \<and> backToBackActive (combo tetrisState) = False
   \<and> lockClearedRows 0 tetrisState uprightI = [0, 1, 2, 3]
   \<and> lockTSpin tetrisState uprightI = (False, False)
   \<and> map ev_type (clearEventsOf (snd (processLock 0 tetrisState DEFAULT_GAME_CONFIG))) = [Tetris]
   \<and> map ev_points (clearEventsOf (snd (processLock 0 tetrisState DEFAULT_GAME_CONFIG))) = [850]
   \<and> scoreTotal (score (fst (processLock 0 tetrisState DEFAULT_GAME_CONFIG)))
       = scoreTotal (score tetrisState) + 850"
proof -
  have a: "activePiece tetrisState = Some uprightI"
    by (simp add: tetrisState_def demoState_def)
  have r: "lockClearedRows 0 tetrisState uprightI \<noteq> []"
    by (simp add: tetris_rows)
  have s: "level (score tetrisState) = 1" "comboCount (combo tetrisState) = 0"
    "backToBackActive (combo tetrisState) = False"
    by (simp_all add: tetrisState_def demoState_def createScoreState_def createComboState_def)
  have p: "lockPoints 0 tetrisState uprightI = 850"
    using first_tetris_points(2) [of 0 tetrisState uprightI] s tetris_not_perfect
    by (simp add: tetris_rows tetris_tspin)
  show ?thesis
    by (simp add: a s tetris_rows tetris_tspin tetris_type p
        processLock_clear_event [OF a r] processLock_clear_score [OF a r])
qed

section \<open>C2: a t-spin reached through the last kick\<close>

text \<open>
  The sample: on the default board, row 0 is full but for column 1, row 1 is full from
  column 3 on, and the cells (2,2), (2,3), (2,4) are occupied. A T piece stands at pivot
  (0,3) in rotation state 1. Rotating it counter-clockwise fails on the kick offsets of
  index 0 to 3 and succeeds on index 4, which puts the pivot at (1,1); \<open>kickedT\<close> is the
  piece that \<^verbatim>\<open>processRotation\<close> leaves active.
\<close>

definition kickSlotCells :: "Position list" where
  "kickSlotCells =
     [(0, 0)] @ [(x, 0). x \<leftarrow> [2 .. 9]] @ [(x, 1). x \<leftarrow> [3 .. 9]] @ [(2, 2), (2, 3), (2, 4)]"

definition kickState :: GameState where
  "kickState = demoState Playing (demoBoard kickSlotCells) (Some (demoPiece Tet_T (0, 3) R1))"

definition kickedT :: ActivePiece where
  "kickedT =
     \<lparr>ptype = Tet_T, position = (1, 1), rotation = R0, ghostY = 1,
      lockDelay = \<lparr>active = False, remaining = 500, moveResets = 1, maxResets = 15\<rparr>,
      softDropCells = 0\<rparr>"

lemmas place_eval =
  canPlacePiece_def isValidPosition_def demoBoard_occupied demoBoard_config
  DEFAULT_BOARD_CONFIG_def totalHeight_def kickSlotCells_def

lemma kick_rotate:
  "rotatePiece (demoBoard kickSlotCells) (demoPiece Tet_T (0, 3) R1) CCW
     = Some ((demoPiece Tet_T (0, 3) R1)\<lparr>position := (1, 1), rotation := R0\<rparr>, True, 4)"
  by (simp add: rotatePiece_def tryRotate_def tryRotateQuarter_def getNewRotation_def
      rotIndex_def rotOfNat_def getWallKicks_def getWallKickKey_def demoPiece_def place_eval)

lemma kick_ghost:
  "calculateGhostY (demoBoard kickSlotCells)
     ((demoPiece Tet_T (0, 3) R1)\<lparr>position := (1, 1), rotation := R0\<rparr>) = 1"
  by (simp add: calculateGhostY_def demoPiece_def ghostLoop.simps [of _ _ _ _ 1] place_eval)

lemma kick_on_ground:
  "isOnGround (demoBoard kickSlotCells)
     ((demoPiece Tet_T (0, 3) R1)\<lparr>position := (1, 1), rotation := R0, ghostY := 1\<rparr>)"
  by (simp add: isOnGround_def canMove_def demoPiece_def place_eval)

lemma kick_reset:
  "resetLockDelay ((demoPiece Tet_T (0, 3) R1)\<lparr>position := (1, 1), rotation := R0, ghostY := 1\<rparr>)
     DEFAULT_GAME_CONFIG = kickedT"
  by (simp add: resetLockDelay_def DEFAULT_GAME_CONFIG_def kickedT_def demoPiece_def)

lemma kick_rotation_step:
  "processRotation kickState CCW
     = (kickState\<lparr>activePiece := Some kickedT\<rparr>, [EvPieceRotate R0 True 4])"
proof -
  have "rotation kickedT = R0"
    by (simp add: kickedT_def)
  then show ?thesis
    by (simp add: processRotation_def kickState_def demoState_def kick_rotate updateGhostY_def
        kick_ghost kick_on_ground kick_reset)
qed

lemma kicked_rows: "lockClearedRows 0 (kickState\<lparr>activePiece := Some kickedT\<rparr>) kickedT = [0, 1]"
  by (simp add: lockClearedRows_def kickState_def kickedT_def kickSlotCells_def sample_eval)

lemma kicked_tspin_as_called:
  "lockTSpin (kickState\<lparr>activePiece := Some kickedT\<rparr>) kickedT = (True, True)"
  by (simp add: lockTSpin_def detectTSpin_def cornerFilled_def getFrontCornerIndices_def
      kickState_def demoState_def kickedT_def isValidPosition_def demoBoard_occupied
      demoBoard_config DEFAULT_BOARD_CONFIG_def totalHeight_def kickSlotCells_def)

lemma kicked_tspin_with_kick_index:
  "detectTSpin (board (kickState\<lparr>activePiece := Some kickedT\<rparr>)) kickedT True 4 = (True, False)"
  by (simp add: detectTSpin_def cornerFilled_def getFrontCornerIndices_def
      kickState_def demoState_def kickedT_def isValidPosition_def demoBoard_occupied
      demoBoard_config DEFAULT_BOARD_CONFIG_def totalHeight_def kickSlotCells_def)


text \<open>
  Claim C2 says that a T piece locked after a rotation that used kick index 4 is a full
  t-spin whenever at least 3 corners are filled. \<^verbatim>\<open>detectTSpin\<close> decides so when it is
  given kick index 4, but \<^verbatim>\<open>processLock\<close> always calls it with kick index 0 (the source
  notes that the index would have to be tracked through the rotation). On the sample the
  rotation reports kick index 4, three corners are filled and one front corner is, two
  rows are cleared, and the clear event is a mini t-spin.
\<close>

theorem kick_four_tspin_locks_as_mini:
  "processRotation kickState CCW
     = (kickState\<lparr>activePiece := Some kickedT\<rparr>, [EvPieceRotate R0 True 4])
   \<and> ptype kickedT = Tet_T
   \<and> lockClearedRows 0 (kickState\<lparr>activePiece := Some kickedT\<rparr>) kickedT = [0, 1]
   \<and> detectTSpin (board (kickState\<lparr>activePiece := Some kickedT\<rparr>)) kickedT True 4
       = (True, False)
   \<and> lockTSpin (kickState\<lparr>activePiece := Some kickedT\<rparr>) kickedT = (True, True)
   \<and> map ev_type (clearEventsOf
         (snd (processLock 0 (fst (processRotation kickState CCW)) DEFAULT_GAME_CONFIG)))
       = [TSpinMini]"
proof -
  have a: "activePiece (kickState\<lparr>activePiece := Some kickedT\<rparr>) = Some kickedT"
    by simp
  have r: "lockClearedRows 0 (kickState\<lparr>activePiece := Some kickedT\<rparr>) kickedT \<noteq> []"
    by (simp add: kicked_rows)
  have t: "lockClearType 0 (kickState\<lparr>activePiece := Some kickedT\<rparr>) kickedT = TSpinMini"
    by (simp add: lockClearType_def kicked_rows kicked_tspin_as_called getClearType_def)
  have e: "map ev_type (clearEventsOf
             (snd (processLock 0 (kickState\<lparr>activePiece := Some kickedT\<rparr>) DEFAULT_GAME_CONFIG)))
           = [TSpinMini]"
    by (simp add: processLock_clear_event [OF a r] t)
  have k: "ptype kickedT = Tet_T"
    by (simp add: kickedT_def)
  show ?thesis
    by (simp only: kick_rotation_step fst_conv e k kicked_rows kicked_tspin_with_kick_index
        kicked_tspin_as_called simp_thms)
qed

section \<open>The steps of a tick\<close>

text \<open>
  \<open>steady\<close> relates a state to a later one of the same tick when phase, bag, streak and
  combo are untouched. \<open>heatOk\<close> is the heat range together with the non-negative combo
  counter, and \<open>carries\<close> says that a step keeps phase and bag and preserves \<open>heatOk\<close>.
  \<open>bagReady\<close> says that both queues of the bag hold a piece. \<open>holdOutcome\<close> is what the
  hold step may do: fail only on an empty \<open>current\<close> queue, and otherwise leave phase,
  streak and combo alone, emit no game-over event, and keep the bag or draw once from it.
\<close>

fun isGameOverEvent :: "GameEvent \<Rightarrow> bool" where
  "isGameOverEvent (EvGameOver finalScore finalLevel cleared) = True"
| "isGameOverEvent _ = False"

definition steady :: "GameState \<Rightarrow> GameState \<Rightarrow> bool" where
  "steady s s' \<longleftrightarrow>
     phase s' = phase s \<and> bag s' = bag s \<and> streak s' = streak s \<and> combo s' = combo s"

lemma steady_refl: "steady s s"
  by (simp add: steady_def)

lemma steady_trans: "steady s s' \<Longrightarrow> steady s' s'' \<Longrightarrow> steady s s''"
  by (simp add: steady_def)

lemma processRotation_steady: "steady state (fst (processRotation state dir))"
  by (simp add: processRotation_def steady_def Let_def split: option.split)

lemma processRotation_events: "\<not> list_ex isGameOverEvent (snd (processRotation state dir))"
  by (simp add: processRotation_def Let_def split: option.split)

lemma processMove_steady: "steady state (fst (processMove state dx dy cfg))"
  by (simp add: processMove_def steady_def Let_def split: option.split)

lemma processMove_events: "\<not> list_ex isGameOverEvent (snd (processMove state dx dy cfg))"
  by (simp add: processMove_def Let_def split: option.split)

lemma processGravity_steady: "steady state (fst (processGravity state deltaMs sd cfg))"
  by (simp add: processGravity_def steady_def Let_def split_beta split: option.split)

lemma processGravity_events:
  "\<not> list_ex isGameOverEvent (snd (processGravity state deltaMs sd cfg))"
  by (simp add: processGravity_def Let_def split_beta split: option.split)

lemma levelUpLoop_no_game_over:
  "\<not> list_ex isGameOverEvent evs
     \<Longrightarrow> \<not> list_ex isGameOverEvent (snd (snd (levelUpLoop cfg rem lvl evs)))"
proof (induction cfg rem lvl evs rule: levelUpLoop.induct)
  case (1 cfg remainingLines newLevel levelEvents)
  show ?case
  proof (cases "remainingLines \<ge> linesPerLevel cfg \<and> newLevel < maxLevel cfg")
    case True
    have "\<not> list_ex isGameOverEvent
             (levelEvents @ [EvLevelUp (newLevel + 1) (newLevel + 1 - 1)])"
      using "1.prems" by simp
    from "1.IH" [OF True this] True show ?thesis
      by (subst levelUpLoop.simps) simp
  next
    case False
    then show ?thesis
      using "1.prems" by (subst levelUpLoop.simps) auto
  qed
qed

lemma processLock_frame:
  "phase (fst (processLock now state cfg)) = phase state
   \<and> bag (fst (processLock now state cfg)) = bag state"
proof (cases "activePiece state")
  case None
  then show ?thesis by (simp add: processLock_def)
next
  case (Some piece)
  show ?thesis
  proof (cases "lockClearedRows now state piece = []")
    case True
    show ?thesis by (simp add: processLock_no_clear [OF Some True])
  next
    case False
    show ?thesis
      unfolding processLock_def
      by (simp add: Some False split_beta Let_def lock_clear_parts [OF False]
          split del: if_split)
  qed
qed

lemma processLock_events: "\<not> list_ex isGameOverEvent (snd (processLock now state cfg))"
proof (cases "activePiece state")
  case None
  then show ?thesis by (simp add: processLock_def)
next
  case (Some piece)
  show ?thesis
  proof (cases "lockClearedRows now state piece = []")
    case True
    show ?thesis by (simp add: processLock_no_clear [OF Some True])
  next
    case False
    show ?thesis
      unfolding processLock_def
      by (simp add: Some False split_beta Let_def lock_clear_parts [OF False]
          levelUpLoop_no_game_over)
  qed
qed

lemma heat_contribution_nonneg:
  assumes "0 \<le> c"
  shows "0 \<le> calculateHeatContribution clearType c b2b DEFAULT_HEAT_CONFIG"
proof -
  have h: "0 \<le> defaultClearHeat clearType"
    by (cases clearType) simp_all
  have "0 \<le> defaultClearHeat clearType * (5 / 100) * real_of_int c"
    using h assms by simp
  with h show ?thesis
    by (simp add: calculateHeatContribution_def DEFAULT_HEAT_CONFIG_def Let_def)
qed

lemma processLock_heat:
  assumes "0 \<le> heatLevel (streak state)" and "heatLevel (streak state) \<le> 1"
    and "0 \<le> comboCount (combo state)"
  shows "0 \<le> heatLevel (streak (fst (processLock now state cfg)))
         \<and> heatLevel (streak (fst (processLock now state cfg))) \<le> 1"
proof (cases "activePiece state")
  case None
  with assms show ?thesis by (simp add: processLock_def)
next
  case (Some piece)
  show ?thesis
  proof (cases "lockClearedRows now state piece = []")
    case True
    with assms show ?thesis by (simp add: processLock_no_clear [OF Some True])
  next
    case False
    have "0 \<le> calculateHeatContribution (lockClearType now state piece)
                 (comboCount (combo state) + 1)
                 (isDifficultClear (lockClearType now state piece)
                  \<and> backToBackActive (combo state)) DEFAULT_HEAT_CONFIG"
      using assms(3) by (intro heat_contribution_nonneg) simp
    with assms(1) show ?thesis
      by (simp add: processLock_clear_heat [OF Some False])
  qed
qed

definition heatOk :: "GameState \<Rightarrow> bool" where
  "heatOk s \<longleftrightarrow>
     0 \<le> heatLevel (streak s) \<and> heatLevel (streak s) \<le> 1 \<and> 0 \<le> comboCount (combo s)"

definition carries :: "GameState \<Rightarrow> GameState \<Rightarrow> bool" where
  "carries s s' \<longleftrightarrow> phase s' = phase s \<and> bag s' = bag s \<and> (heatOk s \<longrightarrow> heatOk s')"

lemma carries_refl: "carries s s"
  by (simp add: carries_def)

lemma carries_trans: "carries s s' \<Longrightarrow> carries s' s'' \<Longrightarrow> carries s s''"
  by (simp add: carries_def)

lemma steady_carries: "steady s s' \<Longrightarrow> carries s s'"
  by (simp add: steady_def carries_def heatOk_def)

lemma processLock_combo_nonneg:
  assumes "0 \<le> comboCount (combo state)"
  shows "0 \<le> comboCount (combo (fst (processLock now state cfg)))"
proof (cases "activePiece state")
  case None
  with assms show ?thesis by (simp add: processLock_def)
next
  case (Some piece)
  show ?thesis
  proof (cases "lockClearedRows now state piece = []")
    case True
    show ?thesis by (simp add: processLock_no_clear [OF Some True])
  next
    case False
    with assms show ?thesis by (simp add: processLock_clear_combo [OF Some False])
  qed
qed

lemma processLock_carries: "carries state (fst (processLock now state cfg))"
  using processLock_frame [of now state cfg] processLock_heat [of state now cfg]
    processLock_combo_nonneg [of state now cfg]
  by (simp add: carries_def heatOk_def)

lemma carries_change_piece: "carries s (s\<lparr>activePiece := p\<rparr>)"
  by (simp add: carries_def heatOk_def)

lemma processHardDrop_carries: "carries state (fst (processHardDrop now state cfg))"
proof (cases "activePiece state")
  case None
  then show ?thesis by (simp add: processHardDrop_def carries_refl)
next
  case (Some ap)
  let ?dropped = "ap\<lparr>position := (fst (position ap), ghostY ap),
                       lockDelay := (lockDelay ap)\<lparr>active := True, remaining := 0\<rparr>\<rparr>"
  let ?s0 = "state\<lparr>activePiece := Some ?dropped\<rparr>"
  let ?lock = "fst (processLock now ?s0 cfg)"
  have "carries state ?lock"
    using carries_trans [OF carries_change_piece processLock_carries] .
  then have "carries state (?lock\<lparr>score := sc\<rparr>)" for sc
    by (simp add: carries_def heatOk_def)
  then show ?thesis
    by (simp add: processHardDrop_def Some Let_def split_beta)
qed

lemma processHardDrop_events: "\<not> list_ex isGameOverEvent (snd (processHardDrop now state cfg))"
  by (simp add: processHardDrop_def Let_def split_beta processLock_events split: option.split)

lemma updateGame_rotation_carries: "carries state (fst (updateGame_rotation state actions))"
  by (simp add: updateGame_rotation_def carries_refl steady_carries processRotation_steady)

lemma updateGame_rotation_events:
  "\<not> list_ex isGameOverEvent (snd (updateGame_rotation state actions))"
  by (simp add: updateGame_rotation_def processRotation_events)

lemma updateGame_move_carries: "carries state (fst (updateGame_move state actions cfg))"
  by (simp add: updateGame_move_def carries_refl steady_carries processMove_steady)

lemma updateGame_move_events:
  "\<not> list_ex isGameOverEvent (snd (updateGame_move state actions cfg))"
  by (simp add: updateGame_move_def processMove_events)

lemma updateGame_drop_carries:
  "carries state (fst (updateGame_drop now state deltaMs actions cfg))"
  by (simp add: updateGame_drop_def carries_refl steady_carries processGravity_steady
      processHardDrop_carries)

lemma updateGame_drop_events:
  "\<not> list_ex isGameOverEvent (snd (updateGame_drop now state deltaMs actions cfg))"
  by (simp add: updateGame_drop_def processGravity_events processHardDrop_events)

lemma updateGame_lockDelay_carries:
  "carries state (fst (updateGame_lockDelay now state deltaMs cfg))"
proof (cases "activePiece state")
  case None
  then show ?thesis by (simp add: updateGame_lockDelay_def carries_refl)
next
  case (Some ap)
  have "carries state (fst (processLock now (state\<lparr>activePiece := p\<rparr>) cfg))" for p
    using carries_trans [OF carries_change_piece processLock_carries] .
  then show ?thesis
    by (simp add: updateGame_lockDelay_def Some Let_def carries_change_piece)
qed

lemma updateGame_lockDelay_events:
  "\<not> list_ex isGameOverEvent (snd (updateGame_lockDelay now state deltaMs cfg))"
  by (simp add: updateGame_lockDelay_def Let_def processLock_events split: option.split)

lemma updateGame_timing_carries:
  assumes "0 \<le> deltaMs"
  shows "carries state (updateGame_timing state deltaMs)"
proof -
  have "0 \<le> decayHeat h deltaMs DEFAULT_HEAT_CONFIG
        \<and> decayHeat h deltaMs DEFAULT_HEAT_CONFIG \<le> 1" if "0 \<le> h" "h \<le> 1" for h
    using that assms by (simp add: decayHeat_def DEFAULT_HEAT_CONFIG_def Let_def max_def)
  then show ?thesis
    by (simp add: updateGame_timing_def carries_def heatOk_def Let_def)
qed

lemma updateGame_timing_frame:
  "phase (updateGame_timing state deltaMs) = phase state
   \<and> bag (updateGame_timing state deltaMs) = bag state"
  by (simp add: updateGame_timing_def Let_def)

definition bagReady :: "PieceBag \<Rightarrow> bool" where
  "bagReady bg \<longleftrightarrow> current bg \<noteq> [] \<and> nextBag bg \<noteq> []"

lemma spawnNextPiece_empty:
  "current bg = [] \<Longrightarrow> spawnNextPiece r brd bg cfg = Inl TypeError"
  by (simp add: spawnNextPiece_def getNextPiece_def Let_def split_beta)

lemma spawnNextPiece_nonempty:
  "current bg = t # rest \<Longrightarrow>
     spawnNextPiece r brd bg cfg
       = Inr ((spawnPiece brd t cfg, snd (fst (getNextPiece r bg))), snd (getNextPiece r bg))"
  by (simp add: spawnNextPiece_def getNextPiece_def Let_def split_beta)

lemma getNextPiece_keeps_current:
  "bagReady bg \<Longrightarrow> current (snd (fst (getNextPiece r bg))) \<noteq> []"
  by (simp add: getNextPiece_current bagReady_def)

definition holdOutcome :: "rng \<Rightarrow> GameState \<Rightarrow> error + (UpdateResult \<times> rng) \<Rightarrow> bool" where
  "holdOutcome r state res =
     (case res of
        Inl e \<Rightarrow> current (bag state) = []
      | Inr ((s', evs), r') \<Rightarrow>
          phase s' = phase state \<and> streak s' = streak state \<and> combo s' = combo state
          \<and> \<not> list_ex isGameOverEvent evs
          \<and> (bag s' = bag state \<or> bag s' = snd (fst (getNextPiece r (bag state)))))"

lemma holdOutcome_same: "holdOutcome r state (Inr ((state, []), r'))"
  by (simp add: holdOutcome_def)

lemma processHold_outcome: "holdOutcome r state (processHold r state cfg)"
proof (cases "activePiece state")
  case None
  then show ?thesis by (simp add: processHold_def holdOutcome_same)
next
  case (Some ap)
  note ap = Some
  show ?thesis
  proof (cases "available (hold state)")
    case False
    then show ?thesis by (simp add: processHold_def ap holdOutcome_same)
  next
    case True
    show ?thesis
    proof (cases "heldPiece (hold state)")
      case (Some heldType)
      let ?bg = "(bag state)\<lparr>current := heldType # current (bag state)\<rparr>"
      have sp: "spawnNextPiece r (board state) ?bg cfg
                  = Inr ((spawnPiece (board state) heldType cfg, snd (fst (getNextPiece r ?bg))),
                         snd (getNextPiece r ?bg))"
        by (rule spawnNextPiece_nonempty) simp
      show ?thesis
      proof (cases "spawnPiece (board state) heldType cfg")
        case None
        then show ?thesis
          by (simp add: processHold_def ap True Some sp holdOutcome_same)
      next
        case (Some np)
        then show ?thesis
          by (simp add: processHold_def ap True \<open>heldPiece (hold state) = Some heldType\<close> sp
              Let_def holdOutcome_def)
      qed
    next
      case None
      show ?thesis
      proof (cases "current (bag state)")
        case Nil
        then show ?thesis
          by (simp add: processHold_def ap True None spawnNextPiece_empty holdOutcome_def)
      next
        case (Cons t rest)
        note sp = spawnNextPiece_nonempty [OF Cons, of r "board state" cfg]
        show ?thesis
        proof (cases "spawnPiece (board state) t cfg")
          case None
          then show ?thesis
            by (simp add: processHold_def ap True \<open>heldPiece (hold state) = None\<close> sp
                holdOutcome_same)
        next
          case (Some np)
          then show ?thesis
            by (simp add: processHold_def ap True \<open>heldPiece (hold state) = None\<close> sp
                Let_def holdOutcome_def)
        qed
      qed
    qed
  qed
qed

lemma updateGame_hold_outcome: "holdOutcome r state (updateGame_hold r state actions cfg)"
  by (simp add: updateGame_hold_def processHold_outcome holdOutcome_same)

lemma beforeSpawn_result:
  assumes "updateGame_beforeSpawn now r state deltaMs actions cfg = Inr ((s6, ev6), r6)"
  shows "phase s6 = phase state"
    and "\<not> list_ex isGameOverEvent ev6"
    and "0 \<le> deltaMs \<Longrightarrow> heatOk state \<Longrightarrow> heatOk s6"
    and "bagReady (bag state) \<Longrightarrow> current (bag s6) \<noteq> []"
proof -
  let ?s1 = "updateGame_timing state deltaMs"
  obtain s2 e2 r2 where h: "updateGame_hold r ?s1 actions cfg = Inr ((s2, e2), r2)"
  proof (cases "updateGame_hold r ?s1 actions cfg")
    case (Inl e)
    with assms show ?thesis
      by (simp add: updateGame_beforeSpawn_def Let_def)
  next
    case (Inr res)
    obtain s2 e2 r2 where "res = ((s2, e2), r2)"
      by (cases res) auto
    with Inr that show ?thesis
      by simp
  qed
  let ?s3 = "fst (updateGame_rotation s2 actions)"
  let ?s4 = "fst (updateGame_move ?s3 actions cfg)"
  let ?s5 = "fst (updateGame_drop now ?s4 deltaMs actions cfg)"
  let ?s6 = "fst (updateGame_lockDelay now ?s5 deltaMs cfg)"
  from assms have s6: "s6 = ?s6"
    and ev6: "ev6 = e2 @ snd (updateGame_rotation s2 actions)
                    @ snd (updateGame_move ?s3 actions cfg)
                    @ snd (updateGame_drop now ?s4 deltaMs actions cfg)
                    @ snd (updateGame_lockDelay now ?s5 deltaMs cfg)"
    by (simp_all add: updateGame_beforeSpawn_def h Let_def split_beta)
  have "carries s2 ?s3"
    by (rule updateGame_rotation_carries)
  then have "carries s2 ?s4"
    by (rule carries_trans) (rule updateGame_move_carries)
  then have "carries s2 ?s5"
    by (rule carries_trans) (rule updateGame_drop_carries)
  then have c: "carries s2 ?s6"
    by (rule carries_trans) (rule updateGame_lockDelay_carries)
  have hr: "phase s2 = phase ?s1" "streak s2 = streak ?s1" "combo s2 = combo ?s1"
    "\<not> list_ex isGameOverEvent e2"
    "bag s2 = bag ?s1 \<or> bag s2 = snd (fst (getNextPiece r (bag ?s1)))"
    using updateGame_hold_outcome [of r ?s1 actions cfg]
    by (simp_all add: h holdOutcome_def)
  show "phase s6 = phase state"
    using c hr(1) by (simp add: s6 carries_def updateGame_timing_frame)
  show "\<not> list_ex isGameOverEvent ev6"
    using hr(4) by (simp add: ev6 updateGame_rotation_events updateGame_move_events
        updateGame_drop_events updateGame_lockDelay_events)
  show "heatOk s6" if "0 \<le> deltaMs" "heatOk state"
  proof -
    from that updateGame_timing_carries [of deltaMs state] have "heatOk ?s1"
      by (simp add: carries_def)
    with hr(2,3) have "heatOk s2"
      by (simp add: heatOk_def)
    with c show ?thesis
      by (simp add: s6 carries_def)
  qed
  show "current (bag s6) \<noteq> []" if "bagReady (bag state)"
  proof -
    from that have b: "bagReady (bag ?s1)"
      by (simp add: updateGame_timing_frame)
    from hr(5) have "current (bag s2) \<noteq> []"
    proof
      assume "bag s2 = bag ?s1"
      with b show ?thesis by (simp add: bagReady_def)
    next
      assume "bag s2 = snd (fst (getNextPiece r (bag ?s1)))"
      with getNextPiece_keeps_current [OF b, of r] show ?thesis by simp
    qed
    with c show ?thesis
      by (simp add: s6 carries_def)
  qed
qed

lemma beforeSpawn_returns:
  assumes "bagReady (bag state)"
  shows "\<exists>s6 ev6 r6. updateGame_beforeSpawn now r state deltaMs actions cfg = Inr ((s6, ev6), r6)"
proof (cases "updateGame_hold r (updateGame_timing state deltaMs) actions cfg")
  case (Inl e)
  with updateGame_hold_outcome [of r "updateGame_timing state deltaMs" actions cfg] assms
  show ?thesis
    by (simp add: holdOutcome_def updateGame_timing_frame bagReady_def)
next
  case (Inr res)
  then show ?thesis
    by (simp add: updateGame_beforeSpawn_def Let_def split_beta)
qed

section \<open>C7: the one way to a game over\<close>

text \<open>
  \<open>spawnPosition\<close> is the pivot at which \<^verbatim>\<open>spawnPiece\<close> puts a new piece.
  \<open>replacementSpawnFails\<close> says that the tick, on a playing state, reaches its spawn step
  with no active piece and that the piece at the head of the bag cannot be placed at the
  spawn position in rotation state 0.
\<close>

definition spawnPosition :: "BoardState \<Rightarrow> Position" where
  "spawnPosition brd = (width (config brd) div 2 - 1, height (config brd))"

definition replacementSpawnFails ::
  "int \<Rightarrow> rng \<Rightarrow> GameState \<Rightarrow> real \<Rightarrow> InputActions \<Rightarrow> GameConfig \<Rightarrow> bool" where
  "replacementSpawnFails now r state deltaMs actions cfg =
     (phase state = Playing
      \<and> (case updateGame_beforeSpawn now r state deltaMs actions cfg of
           Inl e \<Rightarrow> False
         | Inr ((s6, ev6), r6) \<Rightarrow>
             activePiece s6 = None
             \<and> (case current (bag s6) of
                  [] \<Rightarrow> False
                | t # rest \<Rightarrow> \<not> canPlacePiece (board s6) t (spawnPosition (board s6)) R0)))"

lemma spawnPiece_None_iff:
  "spawnPiece brd t cfg = None \<longleftrightarrow> \<not> canPlacePiece brd t (spawnPosition brd) R0"
  by (simp add: spawnPiece_def Let_def isValidPiecePosition_def getPieceBlocks_def
      canPlacePiece_def spawnPosition_def list_all_iff)

lemma processSpawn_empty:
  "current (bag state) = [] \<Longrightarrow> processSpawn r state cfg = Inl TypeError"
  by (simp add: processSpawn_def spawnNextPiece_empty)

lemma processSpawn_blocked:
  assumes "current (bag state) = t # rest" and "spawnPiece (board state) t cfg = None"
  shows "processSpawn r state cfg
           = Inr ((state\<lparr>phase := GameOver\<rparr>,
                   [EvGameOver (scoreTotal (score state)) (level (score state))
                      (linesCleared (score state))]),
                  snd (getNextPiece r (bag state)))"
  by (simp add: processSpawn_def spawnNextPiece_nonempty [OF assms(1)] assms(2))

lemma processSpawn_placed:
  assumes "current (bag state) = t # rest" and "spawnPiece (board state) t cfg = Some piece"
  shows "processSpawn r state cfg
           = Inr ((state\<lparr>activePiece := Some piece, bag := snd (fst (getNextPiece r (bag state)))\<rparr>,
                   [EvPieceSpawn (ptype piece)]),
                  snd (getNextPiece r (bag state)))"
  by (simp add: processSpawn_def spawnNextPiece_nonempty [OF assms(1)] assms(2))

text \<open>What the spawn step and the danger-zone check make of the state before the spawn.\<close>

lemma updateGame_after_beforeSpawn:
  assumes "phase state = Playing"
    and "updateGame_beforeSpawn now r state deltaMs actions cfg = Inr ((s6, ev6), r6)"
  shows "updateGame now r state deltaMs actions cfg
           = (case updateGame_spawn r6 s6 cfg of
                Inl e \<Rightarrow> Inl e
              | Inr ((s7, e7), r7) \<Rightarrow>
                  Inr ((s7, ev6 @ e7
                            @ (if getDangerLevel (board s7) > 0
                               then [EvDangerZone True (getDangerLevel (board s7))] else [])),
                       r7))"
  by (simp add: updateGame_def assms Let_def split: sum.split prod.split)

lemma updateGame_spawn_cases:
  assumes "phase s6 = Playing"
  shows "updateGame_spawn r6 s6 cfg =
           (if activePiece s6 \<noteq> None then Inr ((s6, []), r6)
            else case current (bag s6) of
                   [] \<Rightarrow> Inl TypeError
                 | t # rest \<Rightarrow>
                     (case spawnPiece (board s6) t cfg of
                        None \<Rightarrow>
                          Inr ((s6\<lparr>phase := GameOver\<rparr>,
                                [EvGameOver (scoreTotal (score s6)) (level (score s6))
                                   (linesCleared (score s6))]),
                               snd (getNextPiece r6 (bag s6)))
                      | Some piece \<Rightarrow>
                          Inr ((s6\<lparr>activePiece := Some piece,
                                    bag := snd (fst (getNextPiece r6 (bag s6)))\<rparr>,
                                [EvPieceSpawn (ptype piece)]),
                               snd (getNextPiece r6 (bag s6)))))"
proof (cases "activePiece s6")
  case (Some ap)
  then show ?thesis by (simp add: updateGame_spawn_def)
next
  case None
  show ?thesis
  proof (cases "current (bag s6)")
    case Nil
    then show ?thesis
      by (simp add: updateGame_spawn_def assms None processSpawn_empty)
  next
    case (Cons t rest)
    show ?thesis
    proof (cases "spawnPiece (board s6) t cfg")
      case None
      then show ?thesis
        by (simp add: updateGame_spawn_def assms \<open>activePiece s6 = None\<close> Cons
            processSpawn_blocked [OF Cons None])
    next
      case (Some piece)
      then show ?thesis
        by (simp add: updateGame_spawn_def assms \<open>activePiece s6 = None\<close> Cons
            processSpawn_placed [OF Cons Some])
    qed
  qed
qed

lemma updateGame_returns:
  assumes "bagReady (bag state)"
  shows "\<exists>s' evs r'. updateGame now r state deltaMs actions cfg = Inr ((s', evs), r')"
proof (cases "phase state = Playing")
  case False
  then show ?thesis by (simp add: updateGame_def)
next
  case True
  from beforeSpawn_returns [OF assms, of now r deltaMs actions cfg]
  obtain s6 ev6 r6 where
    b: "updateGame_beforeSpawn now r state deltaMs actions cfg = Inr ((s6, ev6), r6)"
    by blast
  have p: "phase s6 = Playing"
    using beforeSpawn_result(1) [OF b] True by simp
  have c: "current (bag s6) \<noteq> []"
    using beforeSpawn_result(4) [OF b assms] .
  show ?thesis
    unfolding updateGame_after_beforeSpawn [OF True b] updateGame_spawn_cases [OF p]
    using c by (simp split: list.split option.split)
qed

lemma game_over_characterised:
  assumes "updateGame now r state deltaMs actions cfg = Inr ((s', evs), r')"
  shows "(phase state \<noteq> GameOver \<and> phase s' = GameOver)
           = replacementSpawnFails now r state deltaMs actions cfg"
    and "list_ex isGameOverEvent evs = replacementSpawnFails now r state deltaMs actions cfg"
proof -
  have "(phase state \<noteq> GameOver \<and> phase s' = GameOver)
           = replacementSpawnFails now r state deltaMs actions cfg
        \<and> list_ex isGameOverEvent evs = replacementSpawnFails now r state deltaMs actions cfg"
  proof (cases "phase state = Playing")
    case False
    with assms show ?thesis
      by (auto simp: updateGame_def replacementSpawnFails_def)
  next
    case True
    show ?thesis
    proof (cases "updateGame_beforeSpawn now r state deltaMs actions cfg")
      case (Inl e)
      with assms True show ?thesis by (simp add: updateGame_def)
    next
      case (Inr res)
      obtain s6 ev6 r6 where "res = ((s6, ev6), r6)"
        by (cases res) auto
      with Inr have
        b: "updateGame_beforeSpawn now r state deltaMs actions cfg = Inr ((s6, ev6), r6)"
        by simp
      have p: "phase s6 = Playing"
        using beforeSpawn_result(1) [OF b] True by simp
      have e: "\<not> list_ex isGameOverEvent ev6"
        using beforeSpawn_result(2) [OF b] .
      have f: "replacementSpawnFails now r state deltaMs actions cfg
                 = (activePiece s6 = None
                    \<and> (case current (bag s6) of
                         [] \<Rightarrow> False
                       | t # rest \<Rightarrow> spawnPiece (board s6) t cfg = None))"
        by (simp add: replacementSpawnFails_def True b spawnPiece_None_iff split: list.split)
      from assms show ?thesis
        unfolding updateGame_after_beforeSpawn [OF True b] updateGame_spawn_cases [OF p] f
        using p e True
        by (auto split: if_splits list.splits option.splits)
    qed
  qed
  then show "(phase state \<noteq> GameOver \<and> phase s' = GameOver)
               = replacementSpawnFails now r state deltaMs actions cfg"
    and "list_ex isGameOverEvent evs = replacementSpawnFails now r state deltaMs actions cfg"
    by simp_all
qed


text \<open>
  Claim C7. One update moves the phase to \<open>GameOver\<close>, and emits a game-over event, if and
  only if the spawn of a replacement piece fails because the spawn position is invalid;
  nothing else in the tick does either. The update returns a result whenever both queues
  of the bag hold a piece.
\<close>

theorem game_over_iff_replacement_spawn_fails:
  "(bagReady (bag state)
      \<longrightarrow> (\<exists>s' evs r'. updateGame now r state deltaMs actions cfg = Inr ((s', evs), r')))
   \<and> (\<forall>s' evs r'. updateGame now r state deltaMs actions cfg = Inr ((s', evs), r') \<longrightarrow>
         ((phase state \<noteq> GameOver \<and> phase s' = GameOver)
            = replacementSpawnFails now r state deltaMs actions cfg)
         \<and> (list_ex isGameOverEvent evs
            = replacementSpawnFails now r state deltaMs actions cfg))"
  using updateGame_returns [of state now r deltaMs actions cfg]
    game_over_characterised [of now r state deltaMs actions cfg]
  by blast


section \<open>C8: the heat level stays between 0 and 1\<close>

lemma heat_after_update:
  assumes "updateGame now r state deltaMs actions cfg = Inr ((s', evs), r')"
    and "0 \<le> deltaMs" and "heatOk state"
  shows "heatOk s'"
proof (cases "phase state = Playing")
  case False
  with assms show ?thesis by (simp add: updateGame_def)
next
  case True
  show ?thesis
  proof (cases "updateGame_beforeSpawn now r state deltaMs actions cfg")
    case (Inl e)
    with assms True show ?thesis by (simp add: updateGame_def)
  next
    case (Inr res)
    obtain s6 ev6 r6 where "res = ((s6, ev6), r6)"
      by (cases res) auto
    with Inr have
      b: "updateGame_beforeSpawn now r state deltaMs actions cfg = Inr ((s6, ev6), r6)"
      by simp
    have p: "phase s6 = Playing"
      using beforeSpawn_result(1) [OF b] True by simp
    have h: "heatOk s6"
      using beforeSpawn_result(3) [OF b assms(2,3)] .
    from assms(1) have "streak s' = streak s6 \<and> combo s' = combo s6"
      unfolding updateGame_after_beforeSpawn [OF True b] updateGame_spawn_cases [OF p]
      by (auto split: if_splits list.splits option.splits)
    with h show ?thesis
      by (simp add: heatOk_def)
  qed
qed


text \<open>
  Claim C8. For every game state whose heat level lies in \<open>[0, 1]\<close> (and whose combo
  counter is not negative, as the data model has it), after one update with any elapsed
  time \<open>deltaMs \<ge> 0\<close> and any actions, locks that clear lines and idle ticks included, the
  heat level of the resulting state lies in \<open>[0, 1]\<close>. The update returns a result
  whenever both queues of the bag hold a piece.
\<close>

theorem heat_stays_in_unit_interval:
  assumes "0 \<le> heatLevel (streak state)" and "heatLevel (streak state) \<le> 1"
    and "0 \<le> deltaMs" and "0 \<le> comboCount (combo state)"
  shows "(bagReady (bag state)
            \<longrightarrow> (\<exists>s' evs r'. updateGame now r state deltaMs actions cfg = Inr ((s', evs), r')))
         \<and> (\<forall>s' evs r'. updateGame now r state deltaMs actions cfg = Inr ((s', evs), r') \<longrightarrow>
               0 \<le> heatLevel (streak s') \<and> heatLevel (streak s') \<le> 1)"
proof -
  have "heatOk state"
    using assms(1,2,4) by (simp add: heatOk_def)
  then have "heatOk s'"
    if "updateGame now r state deltaMs actions cfg = Inr ((s', evs), r')" for s' evs r'
    using heat_after_update [OF that assms(3)] by simp
  then show ?thesis
    using updateGame_returns [of state now r deltaMs actions cfg]
    by (auto simp: heatOk_def)
qed


section \<open>Sample ticks: a blocked spawn and a hot tetris\<close>

text \<open>
  \<open>blockedState\<close> has no active piece and a cell on the spawn row under the I piece that
  heads the bag. \<open>hotTetrisState\<close> is the sample tetris at heat 0.9, hard-dropped in the
  tick.
\<close>

definition blockedState :: GameState where
  "blockedState = demoState Playing (demoBoard [(4, 20)]) None"

definition hotTetrisState :: GameState where
  "hotTetrisState =
     tetrisState\<lparr>streak := \<lparr>heatLevel = 9 / 10, peakHeat = 9 / 10, timeSinceLastClear = 0,
                              recentClears = []\<rparr>\<rparr>"

lemma beforeSpawn_without_piece:
  assumes "activePiece state = None"
  shows "updateGame_beforeSpawn now r state deltaMs actions cfg
           = Inr ((updateGame_timing state deltaMs, []), r)"
proof -
  have a: "activePiece (updateGame_timing state deltaMs) = None"
    using assms by (simp add: updateGame_timing_def Let_def)
  show ?thesis
    by (simp add: updateGame_beforeSpawn_def Let_def updateGame_hold_def
        updateGame_rotation_def updateGame_move_def updateGame_drop_def
        updateGame_lockDelay_def a)
qed

lemma blocked_spawn_fails:
  "replacementSpawnFails 0 (\<lambda>n. 0) blockedState (50 / 3) noActions DEFAULT_GAME_CONFIG"
proof -
  have a: "activePiece blockedState = None" and p: "phase blockedState = Playing"
    by (simp_all add: blockedState_def demoState_def)
  have t: "activePiece (updateGame_timing blockedState (50 / 3)) = None"
    "board (updateGame_timing blockedState (50 / 3)) = demoBoard [(4, 20)]"
    "current (bag (updateGame_timing blockedState (50 / 3)))
       = [Tet_I, Tet_O, Tet_T, Tet_S, Tet_Z, Tet_J, Tet_L]"
    by (simp_all add: updateGame_timing_def Let_def blockedState_def demoState_def)
  have c: "\<not> canPlacePiece (demoBoard [(4, 20)]) Tet_I (spawnPosition (demoBoard [(4, 20)])) R0"
    by (simp add: canPlacePiece_def spawnPosition_def demoBoard_occupied demoBoard_config
        DEFAULT_BOARD_CONFIG_def)
  show ?thesis
    by (simp add: replacementSpawnFails_def p beforeSpawn_without_piece [OF a] t c)
qed

theorem game_over_iff_replacement_spawn_fails_witness:
  "bagReady (bag blockedState)
   \<and> replacementSpawnFails 0 (\<lambda>n. 0) blockedState (50 / 3) noActions DEFAULT_GAME_CONFIG
   \<and> (\<exists>s' evs r'.
         updateGame 0 (\<lambda>n. 0) blockedState (50 / 3) noActions DEFAULT_GAME_CONFIG
           = Inr ((s', evs), r')
         \<and> phase blockedState = Playing \<and> phase s' = GameOver
         \<and> list_ex isGameOverEvent evs)"
proof -
  have b: "bagReady (bag blockedState)"
    by (simp add: bagReady_def blockedState_def demoState_def)
  have p: "phase blockedState = Playing"
    by (simp add: blockedState_def demoState_def)
  note t = game_over_iff_replacement_spawn_fails
    [of blockedState 0 "\<lambda>n. 0" "50 / 3" noActions DEFAULT_GAME_CONFIG]
  from t b obtain s' evs r' where
    u: "updateGame 0 (\<lambda>n. 0) blockedState (50 / 3) noActions DEFAULT_GAME_CONFIG
          = Inr ((s', evs), r')"
    by blast
  with t blocked_spawn_fails have "phase s' = GameOver" "list_ex isGameOverEvent evs"
    by blast+
  with b p u blocked_spawn_fails show ?thesis
    by blast
qed

theorem heat_stays_in_unit_interval_witness:
  "0 \<le> heatLevel (streak hotTetrisState)
   \<and> heatLevel (streak hotTetrisState) \<le> 1
   \<and> (0 :: real) \<le> 50 / 3
   \<and> 0 \<le> comboCount (combo hotTetrisState)
   \<and> bagReady (bag hotTetrisState)
   \<and> (\<exists>s' evs r'.
         updateGame 0 (\<lambda>n. 0) hotTetrisState (50 / 3) (noActions\<lparr>hardDrop := True\<rparr>)
           DEFAULT_GAME_CONFIG = Inr ((s', evs), r')
         \<and> 0 \<le> heatLevel (streak s') \<and> heatLevel (streak s') \<le> 1)"
proof -
  have h: "0 \<le> heatLevel (streak hotTetrisState)" "heatLevel (streak hotTetrisState) \<le> 1"
    by (simp_all add: hotTetrisState_def)
  have d: "(0 :: real) \<le> 50 / 3"
    by simp
  have c: "0 \<le> comboCount (combo hotTetrisState)"
    by (simp add: hotTetrisState_def tetrisState_def demoState_def createComboState_def)
  have b: "bagReady (bag hotTetrisState)"
    by (simp add: bagReady_def hotTetrisState_def tetrisState_def demoState_def)
  note t = heat_stays_in_unit_interval [OF h d c, of 0 "\<lambda>n. 0" "noActions\<lparr>hardDrop := True\<rparr>"
      DEFAULT_GAME_CONFIG]
  from t b obtain s' evs r' where
    u: "updateGame 0 (\<lambda>n. 0) hotTetrisState (50 / 3) (noActions\<lparr>hardDrop := True\<rparr>)
          DEFAULT_GAME_CONFIG = Inr ((s', evs), r')"
    by blast
  with t have "0 \<le> heatLevel (streak s') \<and> heatLevel (streak s') \<le> 1"
    by blast
  with h d c b u show ?thesis
    by blast
qed


end
